theory Spec2Isabelle
  imports Main "HOL-Library.Char_ord" "HOL-Library.List_Lexorder"
begin

section \<open>JavaScript values used by the build pipeline\<close>

text \<open>
  A value that a JavaScript \<^verbatim>\<open>throw\<close> can raise and a \<^verbatim>\<open>catch\<close> can receive.
  \<open>Error m\<close> is \<^verbatim>\<open>new Error(m)\<close>, \<open>AssertionError m\<close> is what Node's
  \<^verbatim>\<open>assert(false, m)\<close> raises (a subclass of Error), \<open>TypeError m\<close> is what reading
  a property of \<^verbatim>\<open>undefined\<close> raises, and \<open>NonError\<close> is any thrown value that is not
  an instance of Error (a string, a number, a plain object).
\<close>

datatype thrown = Error string | AssertionError string | TypeError string | NonError

fun instanceofError :: "thrown \<Rightarrow> bool" where
  "instanceofError NonError = False"
| "instanceofError _ = True"

fun message :: "thrown \<Rightarrow> string" where
  "message (Error m) = m"
| "message (AssertionError m) = m"
| "message (TypeError m) = m"
| "message NonError = []"

text \<open>\<^verbatim>\<open>Error.prototype.toString\<close>: the name, then \<^verbatim>\<open>": "\<close> and the message when there is one.\<close>

fun toString_thrown :: "thrown \<Rightarrow> string" where
  "toString_thrown (Error m) = (if m = [] then ''Error'' else ''Error: '' @ m)"
| "toString_thrown (AssertionError m) = ''AssertionError [ERR_ASSERTION]: '' @ m"
| "toString_thrown (TypeError m) = (if m = [] then ''TypeError'' else ''TypeError: '' @ m)"
| "toString_thrown NonError = []"

text \<open>A JSON-representable field value of an object; \<open>JUndefined\<close> is a key whose value is
  \<^verbatim>\<open>undefined\<close>.\<close>

datatype jsvalue = JUndefined | JNull | JString string | JNumber nat

text \<open>An object is its own keys with their values, in insertion order.\<close>

type_synonym jsobject = "(string \<times> jsvalue) list"

type_synonym ManifestEntry = jsobject

subsection \<open>Rendering numbers and strings\<close>

definition digit_char :: "nat \<Rightarrow> char" where
  "digit_char d = (''0123456789abcdef'' ! d)"

fun string_of_nat :: "nat \<Rightarrow> string" where
  "string_of_nat n =
     (if n < 10 then [digit_char n] else string_of_nat (n div 10) @ [digit_char (n mod 10)])"

text \<open>\<^verbatim>\<open>JSON.stringify\<close> of a string: quotes, with the quote, the backslash and the control
  characters escaped.\<close>

definition json_escape_char :: "char \<Rightarrow> string" where
  "json_escape_char c =
     (if c = CHR 0x22 then [CHR 0x5C, CHR 0x22]
      else if c = CHR 0x5C then [CHR 0x5C, CHR 0x5C]
      else if c = CHR 0x08 then [CHR 0x5C, CHR ''b'']
      else if c = CHR 0x0C then [CHR 0x5C, CHR ''f'']
      else if c = CHR 0x0A then [CHR 0x5C, CHR ''n'']
      else if c = CHR 0x0D then [CHR 0x5C, CHR ''r'']
      else if c = CHR 0x09 then [CHR 0x5C, CHR ''t'']
      else if (of_char c :: nat) < 32
        then [CHR 0x5C, CHR ''u'', CHR ''0'', CHR ''0'',
              digit_char ((of_char c :: nat) div 16), digit_char ((of_char c :: nat) mod 16)]
      else [c])"

definition JSON_stringify_string :: "string \<Rightarrow> string" where
  "JSON_stringify_string s = [CHR 0x22] @ concat (map json_escape_char s) @ [CHR 0x22]"

text \<open>\<^verbatim>\<open>Array.prototype.join\<close> with a separator.\<close>

fun join :: "string \<Rightarrow> string list \<Rightarrow> string" where
  "join sep [] = []"
| "join sep [x] = x"
| "join sep (x # y # ys) = x @ sep @ join sep (y # ys)"

text \<open>\<^verbatim>\<open>JSON.stringify\<close> of an array of strings.\<close>

definition JSON_stringify_strings :: "string list \<Rightarrow> string" where
  "JSON_stringify_strings xs = ''['' @ join '','' (map JSON_stringify_string xs) @ '']''"

section \<open>The manifest build: \<^verbatim>\<open>getFileManifestEntries\<close>\<close>

text \<open>The fields \<^verbatim>\<open>file\<close>, \<^verbatim>\<open>hash\<close> and \<^verbatim>\<open>size\<close> of \<^verbatim>\<open>FileDetails\<close>.\<close>

record FileDetails =
  file_fd :: string
  hash_fd :: string
  size_fd :: nat

text \<open>The value of one key of \<^verbatim>\<open>templatedURLs\<close>: an array of glob patterns or a literal
  revision string.\<close>

datatype dependencies = DepArray "string list" | DepString string

type_synonym ManifestTransform =
  "ManifestEntry list \<Rightarrow> thrown + (ManifestEntry list \<times> string list)"

record GetManifestOptions =
  additionalPrecacheEntries :: "(string + ManifestEntry) list"
  dontCacheBustURLsMatching :: "string option"
  globDirectory :: string
  globFollow :: bool
  globIgnores :: "string list"
  globPatterns :: "string list option"
  globStrict :: bool
  manifestTransforms :: "ManifestTransform list"
  maximumFileSizeToCacheInBytes :: "nat option"
  modifyURLPrefix :: "(string \<times> string) list"
  templatedURLs :: "(string \<times> dependencies) list option"
  disablePrecacheManifest :: bool

text \<open>What \<^verbatim>\<open>transformManifest\<close> resolves to, and \<^verbatim>\<open>getFileManifestEntries\<close> after it.\<close>

record GetManifestResult =
  count :: nat
  size_m :: nat
  manifestEntries :: "ManifestEntry list option"
  warnings :: "string list"

text \<open>
  The modules that \<^verbatim>\<open>getFileManifestEntries\<close> imports and that are not part of the
  sources at hand are parameters of the model:
  \<^item> \<open>getFileDetails\<close> takes \<^verbatim>\<open>globDirectory\<close>, \<^verbatim>\<open>globFollow\<close>, \<^verbatim>\<open>globIgnores\<close>,
    \<^verbatim>\<open>globPattern\<close> and \<^verbatim>\<open>globStrict\<close> and either throws or returns
    \<^verbatim>\<open>{ globbedFileDetails, warning }\<close> (no warning is \<open>None\<close>);
  \<^item> \<open>getCompositeDetails\<close> and \<open>getStringDetails\<close> build the details of a templated URL;
  \<^item> \<open>transformStages\<close> is the body of \<^verbatim>\<open>transformManifest\<close> when the manifest is not
    disabled, taking the seven fields it is called with in the order of the call;
  \<^item> \<open>errors\<close> is the table of message texts, by key.
\<close>

record env =
  getFileDetails ::
    "string \<Rightarrow> bool \<Rightarrow> string list \<Rightarrow> string \<Rightarrow> bool
       \<Rightarrow> thrown + (FileDetails list \<times> string option)"
  getCompositeDetails :: "string \<Rightarrow> FileDetails list \<Rightarrow> FileDetails"
  getStringDetails :: "string \<Rightarrow> string \<Rightarrow> FileDetails"
  transformStages ::
    "(string + ManifestEntry) list \<Rightarrow> string option \<Rightarrow> ManifestTransform list \<Rightarrow> nat option
       \<Rightarrow> (string \<times> string) list \<Rightarrow> FileDetails list \<Rightarrow> bool \<Rightarrow> thrown + GetManifestResult"
  errors :: "string \<Rightarrow> string"

text \<open>
  Modelled from the spec: \<^verbatim>\<open>transformManifest\<close> (\<^verbatim>\<open>./transform-manifest.js\<close>) is not among
  the sources. The specification says of it: if \<^verbatim>\<open>disablePrecacheManifest\<close> is set, the
  pipeline short-circuits and returns an empty/undefined manifest while still surfacing
  accumulated warnings. The short circuit is that sentence; the stages that run otherwise
  are the parameter \<open>transformStages\<close>.
\<close>

definition transformManifest ::
  "env \<Rightarrow> (string + ManifestEntry) list \<Rightarrow> string option \<Rightarrow> ManifestTransform list \<Rightarrow> nat option
     \<Rightarrow> (string \<times> string) list \<Rightarrow> FileDetails list \<Rightarrow> bool \<Rightarrow> thrown + GetManifestResult" where
  "transformManifest E ape dcb mts mx mup fds dis =
     (if dis then Inr \<lparr>count = 0, size_m = 0, manifestEntries = None, warnings = []\<rparr>
      else transformStages E ape dcb mts mx mup fds dis)"

subsection \<open>The map \<^verbatim>\<open>allFileDetails\<close>\<close>

text \<open>A JavaScript \<^verbatim>\<open>Map\<close> keeps its keys in insertion order, and \<^verbatim>\<open>values()\<close> lists them
  in that order: an association list, \<^verbatim>\<open>set\<close> replacing in place or appending.\<close>

type_synonym FileDetailsMap = "(string \<times> FileDetails) list"

definition Map_has :: "FileDetailsMap \<Rightarrow> string \<Rightarrow> bool" where
  "Map_has m k = (k \<in> set (map fst m))"

fun Map_set :: "FileDetailsMap \<Rightarrow> string \<Rightarrow> FileDetails \<Rightarrow> FileDetailsMap" where
  "Map_set [] k v = [(k, v)]"
| "Map_set ((k', v') # m) k v = (if k' = k then (k, v) # m else (k', v') # Map_set m k v)"

definition Map_get :: "FileDetailsMap \<Rightarrow> string \<Rightarrow> FileDetails option" where
  "Map_get m k = map_of m k"

definition Map_values :: "FileDetailsMap \<Rightarrow> FileDetails list" where
  "Map_values m = map snd m"

subsection \<open>Direct glob patterns\<close>

text \<open>\<^verbatim>\<open>if (warning) { warnings.push(warning); }\<close>: an absent or empty warning is falsy.\<close>

fun pushWarning :: "string option \<Rightarrow> string list \<Rightarrow> string list" where
  "pushWarning None ws = ws"
| "pushWarning (Some w) ws = (if w = [] then ws else ws @ [w])"

text \<open>The inner loop over \<^verbatim>\<open>globbedFileDetails\<close>. The array's element type is
  \<^verbatim>\<open>FileDetails\<close>, so the test \<^verbatim>\<open>details &&\<close> holds of every element.\<close>

fun registerDetails :: "FileDetails list \<Rightarrow> FileDetailsMap \<Rightarrow> FileDetailsMap" where
  "registerDetails [] m = m"
| "registerDetails (d # ds) m =
     registerDetails ds (if \<not> Map_has m (file_fd d) then Map_set m (file_fd d) d else m)"

text \<open>The call of \<^verbatim>\<open>getFileDetails\<close> for one pattern, with the options of the run.\<close>

abbreviation expandPattern ::
  "env \<Rightarrow> GetManifestOptions \<Rightarrow> string \<Rightarrow> thrown + (FileDetails list \<times> string option)" where
  "expandPattern E opts globPattern \<equiv>
     getFileDetails E (globDirectory opts) (globFollow opts) (globIgnores opts)
       globPattern (globStrict opts)"

text \<open>The loop over \<^verbatim>\<open>globPatterns\<close> inside the \<^verbatim>\<open>try\<close>. The two variables it mutates,
  \<^verbatim>\<open>warnings\<close> and \<^verbatim>\<open>allFileDetails\<close>, keep their value when a pattern throws, so the
  loop returns them together with the exception, if any.\<close>

fun globLoop ::
  "env \<Rightarrow> GetManifestOptions \<Rightarrow> string list \<Rightarrow> string list \<times> FileDetailsMap
     \<Rightarrow> (string list \<times> FileDetailsMap) \<times> thrown option" where
  "globLoop E opts [] st = (st, None)"
| "globLoop E opts (globPattern # rest) (ws, m) =
     (case getFileDetails E (globDirectory opts) (globFollow opts) (globIgnores opts)
             globPattern (globStrict opts) of
        Inl e \<Rightarrow> ((ws, m), Some e)
      | Inr (globbedFileDetails, warning) \<Rightarrow>
          globLoop E opts rest (pushWarning warning ws, registerDetails globbedFileDetails m))"

text \<open>The default of the parameter: \<^verbatim>\<open>globPatterns = []\<close>.\<close>

definition patternsOf :: "GetManifestOptions \<Rightarrow> string list" where
  "patternsOf opts = (case globPatterns opts of None \<Rightarrow> [] | Some ps \<Rightarrow> ps)"

text \<open>The \<^verbatim>\<open>try\<close>/\<^verbatim>\<open>catch\<close> around the loop.\<close>

definition globPhase ::
  "env \<Rightarrow> GetManifestOptions \<Rightarrow> string list \<times> FileDetailsMap" where
  "globPhase E opts =
     (case globLoop E opts (patternsOf opts) ([], []) of
        ((ws, m), None) \<Rightarrow> (ws, m)
      | ((ws, m), Some error) \<Rightarrow>
          (if instanceofError error \<and> message error \<noteq> [] then (ws @ [message error], m)
           else (ws, m)))"

text \<open>
  The file details that direct glob expansion resolves, in the order in which the loop
  meets them: pattern by pattern, each pattern in its match order, up to the first pattern
  whose expansion throws.
\<close>

fun resolvedDetails :: "env \<Rightarrow> GetManifestOptions \<Rightarrow> string list \<Rightarrow> FileDetails list" where
  "resolvedDetails E opts [] = []"
| "resolvedDetails E opts (globPattern # rest) =
     (case expandPattern E opts globPattern of
        Inl e \<Rightarrow> []
      | Inr (globbedFileDetails, warning) \<Rightarrow> globbedFileDetails @ resolvedDetails E opts rest)"

subsection \<open>Templated URLs\<close>

text \<open>The \<^verbatim>\<open>reduce\<close> over the dependency patterns of one URL.\<close>

fun templatedReduce ::
  "env \<Rightarrow> GetManifestOptions \<Rightarrow> string \<Rightarrow> string list \<Rightarrow> string list
     \<Rightarrow> string list \<times> FileDetails list \<Rightarrow> thrown + (string list \<times> FileDetails list)" where
  "templatedReduce E opts url deps [] st = Inr st"
| "templatedReduce E opts url deps (globPattern # rest) (ws, previous) =
     (case getFileDetails E (globDirectory opts) (globFollow opts) (globIgnores opts)
             globPattern (globStrict opts) of
        Inl error \<Rightarrow>
          Inl (Error (errors E ''bad-template-urls-asset'' @ '' '' @
                 [CHR 0x27] @ globPattern @ [CHR 0x27] @ '' from '' @ [CHR 0x27] @
                 ''{'' @ JSON_stringify_string url @ '':'' @ JSON_stringify_strings deps @ ''}'' @
                 [CHR 0x27] @ '':'' @ [CHR 0x0A] @
                 (if instanceofError error then toString_thrown error else [])))
      | Inr (globbedFileDetails, warning) \<Rightarrow>
          templatedReduce E opts url deps rest
            (pushWarning warning ws, previous @ globbedFileDetails))"

text \<open>The loop over \<^verbatim>\<open>Object.keys(templatedURLs)\<close>; the object is the list of its keys
  with their values, in the order of \<^verbatim>\<open>Object.keys\<close>.\<close>

fun templatedLoop ::
  "env \<Rightarrow> GetManifestOptions \<Rightarrow> (string \<times> dependencies) list \<Rightarrow> string list \<times> FileDetailsMap
     \<Rightarrow> thrown + (string list \<times> FileDetailsMap)" where
  "templatedLoop E opts [] st = Inr st"
| "templatedLoop E opts ((url, DepArray deps) # rest) (ws, m) =
     (if Map_has m url then Inl (AssertionError (errors E ''templated-url-matches-glob''))
      else case templatedReduce E opts url deps deps (ws, []) of
        Inl e \<Rightarrow> Inl e
      | Inr (ws', details) \<Rightarrow>
          if length details = 0
          then Inl (Error (errors E ''bad-template-urls-asset'' @ '' The glob '' @
                      ''pattern '' @ [CHR 0x27] @ join '','' deps @ [CHR 0x27] @
                      '' did not match anything.''))
          else templatedLoop E opts rest (ws', Map_set m url (getCompositeDetails E url details)))"
| "templatedLoop E opts ((url, DepString dependencies) # rest) (ws, m) =
     (if Map_has m url then Inl (AssertionError (errors E ''templated-url-matches-glob''))
      else templatedLoop E opts rest (ws, Map_set m url (getStringDetails E url dependencies)))"

text \<open>\<^verbatim>\<open>if (templatedURLs) { ... }\<close>, run on the state that the direct glob patterns leave:
  it throws, or leaves the warnings and the map for what follows.\<close>

definition templatedPhase ::
  "env \<Rightarrow> GetManifestOptions \<Rightarrow> thrown + (string list \<times> FileDetailsMap)" where
  "templatedPhase E opts =
     (case templatedURLs opts of
        None \<Rightarrow> Inr (globPhase E opts)
      | Some ts \<Rightarrow> templatedLoop E opts ts (globPhase E opts))"

subsection \<open>The whole function\<close>

definition getFileManifestEntries :: "env \<Rightarrow> GetManifestOptions \<Rightarrow> thrown + GetManifestResult" where
  "getFileManifestEntries E opts =
     (case templatedPhase E opts of
        Inl e \<Rightarrow> Inl e
      | Inr (ws, allFileDetails) \<Rightarrow>
          (case transformManifest E (additionalPrecacheEntries opts) (dontCacheBustURLsMatching opts)
                  (manifestTransforms opts) (maximumFileSizeToCacheInBytes opts)
                  (modifyURLPrefix opts) (Map_values allFileDetails)
                  (disablePrecacheManifest opts) of
             Inl e \<Rightarrow> Inl e
           | Inr transformedManifest \<Rightarrow>
               Inr (transformedManifest\<lparr>warnings := warnings transformedManifest @ ws\<rparr>)))"

section \<open>The webpack plugin: \<^verbatim>\<open>InjectManifest\<close>\<close>

subsection \<open>String operations of the host language\<close>

text \<open>
  \<^verbatim>\<open>swAssetString.match(new RegExp(escapeRegExp(injectionPoint), "g"))\<close>. The escaped
  pattern matches the token literally, so a global match scans the text from the left, and
  after a match goes on behind it (one position further when the match is empty).
  \<open>matchesFrom tok k s\<close> lists the matches in \<open>s\<close>, the next \<open>k\<close> characters lying inside the
  previous match. With no match the result of \<^verbatim>\<open>match\<close> is \<^verbatim>\<open>null\<close>.
\<close>

fun matchesFrom :: "string \<Rightarrow> nat \<Rightarrow> string \<Rightarrow> string list" where
  "matchesFrom tok k [] = (if tok = [] then [[]] else [])"
| "matchesFrom tok (Suc k) (c # cs) = matchesFrom tok k cs"
| "matchesFrom tok 0 (c # cs) =
     (if take (length tok) (c # cs) = tok then tok # matchesFrom tok (length tok - 1) cs
      else matchesFrom tok 0 cs)"

definition String_match_g :: "string \<Rightarrow> string \<Rightarrow> string list option" where
  "String_match_g tok s = (case matchesFrom tok 0 s of [] \<Rightarrow> None | ms \<Rightarrow> Some ms)"

text \<open>The number of times the token occurs in a text, as the global match counts it.\<close>

definition occurrences :: "string \<Rightarrow> string \<Rightarrow> nat" where
  "occurrences tok s = length (matchesFrom tok 0 s)"

text \<open>
  \<^verbatim>\<open>text.replace(searchString, replaceString)\<close> with a string pattern replaces the first
  occurrence. In the replacement, \<^verbatim>\<open>$$\<close> stands for a dollar sign, \<^verbatim>\<open>$&\<close> for the
  match, \<^verbatim>\<open>$`\<close> for the text before it and \<^verbatim>\<open>$'\<close> for the text after it; a string
  pattern has no groups, so every other \<^verbatim>\<open>$\<close> stands for itself.
\<close>

fun splitAtFirst :: "string \<Rightarrow> string \<Rightarrow> (string \<times> string) option" where
  "splitAtFirst tok [] = (if tok = [] then Some ([], []) else None)"
| "splitAtFirst tok (c # cs) =
     (if take (length tok) (c # cs) = tok then Some ([], drop (length tok) (c # cs))
      else map_option (\<lambda>(preceding, following). (c # preceding, following)) (splitAtFirst tok cs))"

fun getSubstitution :: "string \<Rightarrow> string \<Rightarrow> string \<Rightarrow> string \<Rightarrow> string" where
  "getSubstitution matched preceding following [] = []"
| "getSubstitution matched preceding following [c] = [c]"
| "getSubstitution matched preceding following (c # d # r) =
     (if c = CHR ''$'' \<and> d = CHR ''$'' then CHR ''$'' # getSubstitution matched preceding following r
      else if c = CHR ''$'' \<and> d = CHR ''&'' then matched @ getSubstitution matched preceding following r
      else if c = CHR ''$'' \<and> d = CHR 0x60 then preceding @ getSubstitution matched preceding following r
      else if c = CHR ''$'' \<and> d = CHR 0x27 then following @ getSubstitution matched preceding following r
      else c # getSubstitution matched preceding following (d # r))"

definition String_replace :: "string \<Rightarrow> string \<Rightarrow> string \<Rightarrow> string" where
  "String_replace s searchString replaceString =
     (case splitAtFirst searchString s of
        None \<Rightarrow> s
      | Some (preceding, following) \<Rightarrow>
          preceding @ getSubstitution searchString preceding following replaceString @ following)"

text \<open>\<^verbatim>\<open>manifestString.replace(/"/g, `'`)\<close>.\<close>

definition replaceDoubleQuotes :: "string \<Rightarrow> string" where
  "replaceDoubleQuotes s = map (\<lambda>c. if c = CHR 0x22 then CHR 0x27 else c) s"

subsection \<open>The serializer\<close>

text \<open>
  Modelled from the spec: \<^verbatim>\<open>stringify\<close> is the package \<^verbatim>\<open>fast-json-stable-stringify\<close>,
  which is not among the sources. The specification says of the serializer that it is
  byte-stable for a given logical entry list regardless of object-key insertion order in
  memory (keys are canonicalized before stringification): the keys of an object are sorted
  (as JavaScript's \<^verbatim>\<open>sort\<close> orders strings, by code unit), a key whose value is
  \<^verbatim>\<open>undefined\<close> is left out, and the rest is \<^verbatim>\<open>JSON.stringify\<close>. The serializer of
  \<^verbatim>\<open>undefined\<close> is \<^verbatim>\<open>undefined\<close>.
\<close>

fun stringify_value :: "jsvalue \<Rightarrow> string option" where
  "stringify_value JUndefined = None"
| "stringify_value JNull = Some ''null''"
| "stringify_value (JString s) = Some (JSON_stringify_string s)"
| "stringify_value (JNumber n) = Some (string_of_nat n)"

fun stringify_keys :: "jsobject \<Rightarrow> string list \<Rightarrow> string \<Rightarrow> string" where
  "stringify_keys node [] out = out"
| "stringify_keys node (key # keys) out =
     (case stringify_value (case map_of node key of None \<Rightarrow> JUndefined | Some v \<Rightarrow> v) of
        None \<Rightarrow> stringify_keys node keys out
      | Some v \<Rightarrow>
          stringify_keys node keys
            ((if out \<noteq> [] then out @ '','' else out) @ JSON_stringify_string key @ '':'' @ v))"

definition stringify_object :: "jsobject \<Rightarrow> string" where
  "stringify_object node = ''{'' @ stringify_keys node (sort (map fst node)) [] @ ''}''"

definition stringify :: "ManifestEntry list option \<Rightarrow> string option" where
  "stringify data =
     (case data of
        None \<Rightarrow> None
      | Some entries \<Rightarrow> Some (''['' @ join '','' (map stringify_object entries) @ '']''))"

text \<open>
  Two objects in memory that are the same logical entry: the same keys with the same
  values, whatever the order in which the keys were inserted. Two entry lists are the same
  logical list when they hold the same logical entries in the same order.
\<close>

definition sameObject :: "jsobject \<Rightarrow> jsobject \<Rightarrow> bool" where
  "sameObject a b = (distinct (map fst a) \<and> distinct (map fst b) \<and> set a = set b)"

definition sameEntries :: "ManifestEntry list \<Rightarrow> ManifestEntry list \<Rightarrow> bool" where
  "sameEntries es1 es2 = list_all2 sameObject es1 es2"

subsection \<open>The plugin's data\<close>

text \<open>A condition of \<^verbatim>\<open>config.exclude\<close>: one the user configured, or the function that
  \<^verbatim>\<open>getManifestEntries\<close> pushes, which excludes the assets named in
  \<^verbatim>\<open>_generatedAssetNames\<close>.\<close>

datatype condition = UserCondition string | GeneratedAssetCondition

text \<open>The fields of \<^verbatim>\<open>WebpackInjectManifestOptions\<close> that the two methods read;
  \<open>disablePrecacheManifest_w\<close> is its field \<^verbatim>\<open>disablePrecacheManifest\<close>.\<close>

record WebpackInjectManifestOptions =
  swSrc :: string
  swDest :: string
  injectionPoint :: string
  compileSrc :: bool
  disablePrecacheManifest_w :: bool
  exclude :: "condition list"

text \<open>
  The webpack compilation, as far as the plugin reads and writes it: the assets by name
  (the text of \<^verbatim>\<open>asset.source.source().toString()\<close>), \<^verbatim>\<open>warnings\<close>, \<^verbatim>\<open>errors\<close>,
  \<^verbatim>\<open>fileDependencies\<close>, \<^verbatim>\<open>options.devtool\<close> and whether
  \<^verbatim>\<open>options.optimization.minimize\<close> is set.
\<close>

record Compilation =
  assets :: "string \<rightharpoonup> string"
  comp_warnings :: "thrown list"
  comp_errors :: "thrown list"
  fileDependencies :: "string set"
  devtool :: "string option"
  minimize :: bool

record InjectManifest =
  config :: WebpackInjectManifestOptions
  alreadyCalled :: bool

text \<open>What \<^verbatim>\<open>getManifestEntries\<close> resolves to.\<close>

record ManifestEntriesResult =
  size_r :: nat
  sortedEntries :: "ManifestEntry list option"
  manifestString :: "string option"

text \<open>The parsed source map handed to \<^verbatim>\<open>replaceAndUpdateSourceMap\<close>.\<close>

datatype RawSourceMap = RawSourceMap string

text \<open>
  The imported functions that are not part of the sources at hand are parameters:
  \<^item> \<open>getManifestEntriesFromCompilation\<close> reads the compilation, the config and the set
    \<^verbatim>\<open>_generatedAssetNames\<close> (through the pushed condition) and either throws or returns
    \<^verbatim>\<open>{ size, sortedEntries }\<close> together with the warnings it pushes to
    \<^verbatim>\<open>compilation.warnings\<close>;
  \<^item> \<open>getSourcemapAssetName\<close> takes the compilation, the text of the asset and
    \<^verbatim>\<open>swDest\<close>;
  \<^item> \<open>replaceAndUpdateSourceMap\<close> takes \<^verbatim>\<open>jsFilename\<close>, \<^verbatim>\<open>originalMap\<close>,
    \<^verbatim>\<open>originalSource\<close>, \<^verbatim>\<open>replaceString\<close> and \<^verbatim>\<open>searchString\<close> and returns
    \<^verbatim>\<open>{ source, map }\<close>;
  \<^item> \<open>JSON_parse\<close> and \<open>upath_resolve\<close> are the library functions of these names.
\<close>

record wenv =
  getManifestEntriesFromCompilation ::
    "Compilation \<Rightarrow> WebpackInjectManifestOptions \<Rightarrow> string set
       \<Rightarrow> thrown + ((nat \<times> ManifestEntry list option) \<times> thrown list)"
  getSourcemapAssetName :: "Compilation \<Rightarrow> string \<Rightarrow> string \<Rightarrow> string option"
  replaceAndUpdateSourceMap ::
    "string \<Rightarrow> RawSourceMap \<Rightarrow> string \<Rightarrow> string option \<Rightarrow> string \<Rightarrow> thrown + (string \<times> string)"
  JSON_parse :: "string \<Rightarrow> thrown + RawSourceMap"
  upath_resolve :: "string \<Rightarrow> string"

text \<open>The constructor.\<close>

definition InjectManifest_new :: "WebpackInjectManifestOptions \<Rightarrow> InjectManifest" where
  "InjectManifest_new cfg = \<lparr>config = cfg, alreadyCalled = False\<rparr>"

subsection \<open>\<^verbatim>\<open>getManifestEntries\<close>\<close>

text \<open>The warning text; \<^verbatim>\<open>this.constructor.name\<close> is the name of the class.\<close>

definition warningMessage :: string where
  "warningMessage =
     ''InjectManifest has been called '' @
     ''multiple times, perhaps due to running webpack in --watch mode. The '' @
     ''precache manifest generated after the first call may be inaccurate! '' @
     ''Please see https://github.com/GoogleChrome/workbox/issues/1790 for '' @
     ''more information.''"

text \<open>The callback of \<^verbatim>\<open>compilation.warnings.some\<close>.\<close>

definition isStaleWarning :: "thrown \<Rightarrow> bool" where
  "isStaleWarning warning = (instanceofError warning \<and> message warning = warningMessage)"

text \<open>The branch on \<^verbatim>\<open>this.alreadyCalled\<close>: it changes the flag or the warnings of the
  compilation.\<close>

definition noteInvocation :: "InjectManifest \<Rightarrow> Compilation \<Rightarrow> InjectManifest \<times> Compilation" where
  "noteInvocation this compilation =
     (if alreadyCalled this
      then (this,
            if \<not> list_ex isStaleWarning (comp_warnings compilation)
            then compilation\<lparr>comp_warnings := comp_warnings compilation @ [Error warningMessage]\<rparr>
            else compilation)
      else (this\<lparr>alreadyCalled := True\<rparr>, compilation))"

text \<open>
  The manifest string: \<^verbatim>\<open>stringify(sortedEntries)\<close>, with single quotes for double quotes
  when the source is compiled (and the devtool and minimizer do not forbid it). Calling
  \<^verbatim>\<open>replace\<close> on \<^verbatim>\<open>undefined\<close> throws.
\<close>

definition serializeManifest ::
  "InjectManifest \<Rightarrow> Compilation \<Rightarrow> ManifestEntry list option \<Rightarrow> thrown + string option" where
  "serializeManifest this compilation entries =
     (let manifestString0 = stringify entries
      in if compileSrc (config this) \<and>
            \<not> (devtool compilation = Some ''eval-cheap-source-map'' \<and> minimize compilation)
         then (case manifestString0 of
                 None \<Rightarrow>
                   Inl (TypeError (''Cannot read properties of undefined '' @
                                   ''(reading '' @ [CHR 0x27] @ ''replace'' @ [CHR 0x27] @ '')''))
               | Some s \<Rightarrow> Inr (Some (replaceDoubleQuotes s)))
         else Inr manifestString0)"

text \<open>
  The method returns its result, or what it throws, and leaves behind the instance, the
  compilation and the config object it was given (to whose \<^verbatim>\<open>exclude\<close> it pushes).
\<close>

definition getManifestEntries ::
  "wenv \<Rightarrow> InjectManifest \<Rightarrow> string set \<Rightarrow> Compilation \<Rightarrow> WebpackInjectManifestOptions
     \<Rightarrow> (thrown + ManifestEntriesResult) \<times> InjectManifest \<times> Compilation \<times> WebpackInjectManifestOptions" where
  "getManifestEntries W this generatedAssetNames compilation cfg =
     (if disablePrecacheManifest_w cfg
      then (Inr \<lparr>size_r = 0, sortedEntries = None, manifestString = Some ''undefined''\<rparr>,
            this, compilation, cfg)
      else
        (case noteInvocation this compilation of (this1, compilation1) \<Rightarrow>
           let cfg1 = cfg\<lparr>exclude := exclude cfg @ [GeneratedAssetCondition]\<rparr> in
           (case getManifestEntriesFromCompilation W compilation1 cfg1 generatedAssetNames of
              Inl e \<Rightarrow> (Inl e, this1, compilation1, cfg1)
            | Inr ((sz, entries), pushed) \<Rightarrow>
                let compilation2 = compilation1\<lparr>comp_warnings := comp_warnings compilation1 @ pushed\<rparr>
                in (case serializeManifest this1 compilation2 entries of
                      Inl e \<Rightarrow> (Inl e, this1, compilation2, cfg1)
                    | Inr manifestString1 \<Rightarrow>
                        (Inr \<lparr>size_r = sz, sortedEntries = entries, manifestString = manifestString1\<rparr>,
                         this1, compilation2, cfg1)))))"

text \<open>The warnings that the call of \<^verbatim>\<open>getManifestEntriesFromCompilation\<close> made by
  \<^verbatim>\<open>getManifestEntries\<close> pushes to the compilation: none when it throws.\<close>

definition pushedWarnings ::
  "wenv \<Rightarrow> InjectManifest \<Rightarrow> string set \<Rightarrow> Compilation \<Rightarrow> WebpackInjectManifestOptions \<Rightarrow> thrown list" where
  "pushedWarnings W this generatedAssetNames compilation cfg =
     (case getManifestEntriesFromCompilation W (snd (noteInvocation this compilation))
             (cfg\<lparr>exclude := exclude cfg @ [GeneratedAssetCondition]\<rparr>) generatedAssetNames of
        Inl e \<Rightarrow> []
      | Inr (r, pushed) \<Rightarrow> pushed)"

text \<open>
  Successive invocations of \<^verbatim>\<open>getManifestEntries\<close> by one instance on one compilation,
  each with a shallow copy of \<^verbatim>\<open>this.config\<close>, as \<^verbatim>\<open>addAssets\<close> makes them: the
  instance and the compilation after \<open>n\<close> invocations.
\<close>

fun invocations ::
  "wenv \<Rightarrow> string set \<Rightarrow> nat \<Rightarrow> InjectManifest \<times> Compilation \<Rightarrow> InjectManifest \<times> Compilation" where
  "invocations W names 0 st = st"
| "invocations W names (Suc n) (this, compilation) =
     (case getManifestEntries W this names compilation (config this) of
        (r, this1, compilation1, cfg1) \<Rightarrow>
          invocations W names n (this1\<lparr>config := (config this1)\<lparr>exclude := exclude cfg1\<rparr>\<rparr>, compilation1))"

subsection \<open>\<^verbatim>\<open>addAssets\<close>\<close>

text \<open>\<^verbatim>\<open>compilation.updateAsset(name, new RawSource(text))\<close>, called for assets that
  \<^verbatim>\<open>getAsset\<close> has just found.\<close>

definition updateAsset :: "Compilation \<Rightarrow> string \<Rightarrow> string \<Rightarrow> Compilation" where
  "updateAsset compilation name text = compilation\<lparr>assets := (assets compilation)(name \<mapsto> text)\<rparr>"

text \<open>A replacement string that is \<^verbatim>\<open>undefined\<close> is converted to the text
  \<^verbatim>\<open>undefined\<close>.\<close>

definition toString_opt :: "string option \<Rightarrow> string" where
  "toString_opt s = (case s of None \<Rightarrow> ''undefined'' | Some t \<Rightarrow> t)"

definition notFoundMessage :: "string \<Rightarrow> string" where
  "notFoundMessage tok = ''Can'' @ [CHR 0x27] @ ''t find '' @ tok @ '' in your SW source.''"

definition multipleMessage :: "string \<Rightarrow> string" where
  "multipleMessage tok =
     ''Multiple instances of '' @ tok @ '' were '' @
     ''found in your SW source. Include it only once. For more info, see '' @
     ''https://github.com/GoogleChrome/workbox/issues/2681''"

text \<open>
  The second half of \<^verbatim>\<open>addAssets\<close>, from \<^verbatim>\<open>compilation.getAsset(config.swDest)\<close> on: it
  returns what it throws, if anything, with the set \<^verbatim>\<open>_generatedAssetNames\<close> and the
  compilation as it leaves them. The final message to the logger changes neither.
\<close>

definition injectInto ::
  "wenv \<Rightarrow> WebpackInjectManifestOptions \<Rightarrow> string option \<Rightarrow> string set \<Rightarrow> Compilation
     \<Rightarrow> (thrown + unit) \<times> string set \<times> Compilation" where
  "injectInto W cfg manifestStr generatedAssetNames compilation =
     (case assets compilation (swDest cfg) of
        None \<Rightarrow>
          (Inl (TypeError (''Cannot read properties of undefined '' @
                           ''(reading '' @ [CHR 0x27] @ ''source'' @ [CHR 0x27] @ '')'')),
           generatedAssetNames, compilation)
      | Some swAssetString \<Rightarrow>
          (case String_match_g (injectionPoint cfg) swAssetString of
             None \<Rightarrow> (Inl (Error (notFoundMessage (injectionPoint cfg))), generatedAssetNames, compilation)
           | Some injectionResults \<Rightarrow>
               if length injectionResults \<noteq> 1
               then (Inl (Error (multipleMessage (injectionPoint cfg))), generatedAssetNames, compilation)
               else
                 let plain =
                       (Inr (), generatedAssetNames,
                        updateAsset compilation (swDest cfg)
                          (String_replace swAssetString (injectionPoint cfg) (toString_opt manifestStr)))
                 in (case getSourcemapAssetName W compilation swAssetString (swDest cfg) of
                       None \<Rightarrow> plain
                     | Some sourcemapAssetName \<Rightarrow>
                         if sourcemapAssetName = [] then plain
                         else
                           let names = insert sourcemapAssetName generatedAssetNames in
                           (case assets compilation sourcemapAssetName of
                              None \<Rightarrow>
                                (Inl (TypeError (''Cannot read properties of undefined '' @
                                                 ''(reading '' @ [CHR 0x27] @ ''source'' @ [CHR 0x27] @ '')'')),
                                 names, compilation)
                            | Some mapText \<Rightarrow>
                                (case JSON_parse W mapText of
                                   Inl e \<Rightarrow> (Inl e, names, compilation)
                                 | Inr originalMap \<Rightarrow>
                                     (case replaceAndUpdateSourceMap W (swDest cfg) originalMap
                                             swAssetString manifestStr (injectionPoint cfg) of
                                        Inl e \<Rightarrow> (Inl e, names, compilation)
                                      | Inr (source, map') \<Rightarrow>
                                          (Inr (), names,
                                           updateAsset (updateAsset compilation sourcemapAssetName map')
                                             (swDest cfg) source)))))))"

text \<open>
  \<^verbatim>\<open>addAssets\<close>. The local \<^verbatim>\<open>config\<close> is a shallow copy of \<^verbatim>\<open>this.config\<close>: both hold
  the same \<^verbatim>\<open>exclude\<close> array, so what \<^verbatim>\<open>getManifestEntries\<close> pushes to it is seen
  through \<^verbatim>\<open>this.config\<close> too.
\<close>

definition addAssets ::
  "wenv \<Rightarrow> InjectManifest \<Rightarrow> string set \<Rightarrow> Compilation
     \<Rightarrow> (thrown + unit) \<times> InjectManifest \<times> string set \<times> Compilation" where
  "addAssets W this generatedAssetNames compilation =
     (case getManifestEntries W this generatedAssetNames compilation (config this) of
        (r, this1, compilation1, cfg1) \<Rightarrow>
          let this2 = this1\<lparr>config := (config this1)\<lparr>exclude := exclude cfg1\<rparr>\<rparr> in
          (case r of
             Inl e \<Rightarrow> (Inl e, this2, generatedAssetNames, compilation1)
           | Inr res \<Rightarrow>
               let compilation2 =
                     compilation1\<lparr>fileDependencies :=
                       insert (upath_resolve W (swSrc cfg1)) (fileDependencies compilation1)\<rparr>
               in (case injectInto W cfg1 (manifestString res) generatedAssetNames compilation2 of
                     (r', names, compilation3) \<Rightarrow> (r', this2, names, compilation3))))"

section \<open>A directory and a build to run the functions on\<close>

text \<open>A directory with \<^verbatim>\<open>index.html\<close> (10 bytes) and \<^verbatim>\<open>app.js\<close> (20 bytes, later 25),
  three patterns whose expansion throws, and a transform that lists every file.\<close>

definition indexHtml :: FileDetails where
  "indexHtml = \<lparr>file_fd = ''index.html'', hash_fd = ''h1'', size_fd = 10\<rparr>"

definition appJs :: FileDetails where
  "appJs = \<lparr>file_fd = ''app.js'', hash_fd = ''h2'', size_fd = 20\<rparr>"

definition appJsLater :: FileDetails where
  "appJsLater = \<lparr>file_fd = ''app.js'', hash_fd = ''h3'', size_fd = 25\<rparr>"

definition demoGetFileDetails ::
  "string \<Rightarrow> bool \<Rightarrow> string list \<Rightarrow> string \<Rightarrow> bool \<Rightarrow> thrown + (FileDetails list \<times> string option)" where
  "demoGetFileDetails dir follow ignores pat strict =
     (if pat = ''*.html'' then Inr ([indexHtml], None)
      else if pat = ''**/*'' then Inr ([indexHtml, appJs], None)
      else if pat = ''*.js'' then Inr ([appJsLater], None)
      else if pat = ''['' then Inl (Error ''boom'')
      else if pat = ''{'' then Inl NonError
      else if pat = ''('' then Inl (Error [])
      else Inr ([], Some (''no match: '' @ pat)))"

definition demoTransformStages ::
  "(string + ManifestEntry) list \<Rightarrow> string option \<Rightarrow> ManifestTransform list \<Rightarrow> nat option
     \<Rightarrow> (string \<times> string) list \<Rightarrow> FileDetails list \<Rightarrow> bool \<Rightarrow> thrown + GetManifestResult" where
  "demoTransformStages ape dcb mts mx mup fds dis =
     Inr \<lparr>count = length fds, size_m = sum_list (map size_fd fds),
          manifestEntries =
            Some (map (\<lambda>d. [(''url'', JString (file_fd d)), (''revision'', JString (hash_fd d))]) fds),
          warnings = []\<rparr>"

definition demoErrors :: "string \<Rightarrow> string" where
  "demoErrors key =
     (if key = ''templated-url-matches-glob'' then ''templated URL matches glob''
      else if key = ''bad-template-urls-asset'' then ''bad templated URL asset''
      else [])"

definition demoEnv :: env where
  "demoEnv =
     \<lparr>getFileDetails = demoGetFileDetails,
      getCompositeDetails =
        (\<lambda>url ds. \<lparr>file_fd = url, hash_fd = concat (map hash_fd ds),
                    size_fd = sum_list (map size_fd ds)\<rparr>),
      getStringDetails = (\<lambda>url s. \<lparr>file_fd = url, hash_fd = s, size_fd = length s\<rparr>),
      transformStages = demoTransformStages,
      errors = demoErrors\<rparr>"

definition demoOptions :: GetManifestOptions where
  "demoOptions =
     \<lparr>additionalPrecacheEntries = [], dontCacheBustURLsMatching = None,
      globDirectory = ''dist'', globFollow = True, globIgnores = [],
      globPatterns = Some [''**/*''], globStrict = True, manifestTransforms = [],
      maximumFileSizeToCacheInBytes = None, modifyURLPrefix = [],
      templatedURLs = None, disablePrecacheManifest = False\<rparr>"

text \<open>A plugin instance, and a compilation that holds the compiled service worker
  \<^verbatim>\<open>sw.js\<close> with a given text, and no source map for it.\<close>

definition demoConfig :: WebpackInjectManifestOptions where
  "demoConfig =
     \<lparr>swSrc = ''src/sw.ts'', swDest = ''sw.js'', injectionPoint = ''self.__SW_MANIFEST'',
      compileSrc = True, disablePrecacheManifest_w = False, exclude = []\<rparr>"

definition demoWenv :: wenv where
  "demoWenv =
     \<lparr>getManifestEntriesFromCompilation =
        (\<lambda>compilation cfg names.
           Inr ((10, Some [[(''url'', JString ''index.html''), (''revision'', JString ''h1'')]]), [])),
      getSourcemapAssetName =
        (\<lambda>compilation text dest.
           if assets compilation (dest @ ''.map'') \<noteq> None then Some (dest @ ''.map'') else None),
      replaceAndUpdateSourceMap =
        (\<lambda>jsFilename originalMap originalSource replaceString searchString.
           Inr (String_replace originalSource searchString (toString_opt replaceString),
                case originalMap of RawSourceMap t \<Rightarrow> t)),
      JSON_parse = (\<lambda>s. Inr (RawSourceMap s)),
      upath_resolve = (\<lambda>path. ''/project/'' @ path)\<rparr>"

definition demoCompilation :: "string \<Rightarrow> Compilation" where
  "demoCompilation text =
     \<lparr>assets = [''sw.js'' \<mapsto> text], comp_warnings = [], comp_errors = [],
      fileDependencies = {}, devtool = None, minimize = False\<rparr>"

section \<open>Properties of the manifest build\<close>

lemmas demo_defs = demoEnv_def demoOptions_def demoGetFileDetails_def demoTransformStages_def
  demoErrors_def indexHtml_def appJs_def appJsLater_def

subsection \<open>The map\<close>

lemma Map_has_iff: "Map_has m k \<longleftrightarrow> map_of m k \<noteq> None"
  by (simp add: Map_has_def map_of_eq_None_iff)

lemma map_of_Map_set: "map_of (Map_set m k v) = (map_of m)(k \<mapsto> v)"
  by (induction m) auto

lemma keys_Map_set: "fst ` set (Map_set m k v) = insert k (fst ` set m)"
  by (simp add: dom_map_of_conv_image_fst [symmetric] map_of_Map_set)

lemma distinct_Map_set: "distinct (map fst m) \<Longrightarrow> distinct (map fst (Map_set m k v))"
  by (induction m) (auto simp: keys_Map_set)

lemma Map_has_Map_set: "Map_has (Map_set m k v) k' \<longleftrightarrow> k' = k \<or> Map_has m k'"
  by (auto simp: Map_has_def keys_Map_set)

lemma find_append_first:
  "List.find P (xs @ ys) = (case List.find P xs of None \<Rightarrow> List.find P ys | Some x \<Rightarrow> Some x)"
  by (induction xs) auto

lemma map_of_registerDetails:
  "map_of (registerDetails ds m) k =
     (case map_of m k of Some v \<Rightarrow> Some v | None \<Rightarrow> List.find (\<lambda>d. file_fd d = k) ds)"
proof (induction ds arbitrary: m)
  case Nil
  then show ?case by (simp split: option.splits)
next
  case (Cons d ds)
  show ?case
    by (auto simp: Cons.IH Map_has_iff map_of_Map_set split: option.splits)
qed

lemma distinct_registerDetails:
  "distinct (map fst m) \<Longrightarrow> distinct (map fst (registerDetails ds m))"
  by (induction ds arbitrary: m) (auto simp: distinct_Map_set)

lemma keys_registerDetails:
  "fst ` set (registerDetails ds m) = fst ` set m \<union> file_fd ` set ds"
proof (induction ds arbitrary: m)
  case Nil
  then show ?case by simp
next
  case (Cons d ds)
  show ?case by (auto simp: Cons.IH keys_Map_set Map_has_def)
qed

subsection \<open>The loop over the patterns\<close>

lemma map_of_globLoop:
  "map_of (snd (fst (globLoop E opts ps (ws, m)))) k =
     (case map_of m k of
        Some v \<Rightarrow> Some v
      | None \<Rightarrow> List.find (\<lambda>d. file_fd d = k) (resolvedDetails E opts ps))"
proof (induction ps arbitrary: ws m)
  case Nil
  then show ?case by (simp split: option.splits)
next
  case (Cons p ps)
  show ?case
    by (auto simp: Cons.IH map_of_registerDetails find_append_first
          split: sum.splits option.splits)
qed

lemma distinct_globLoop:
  "distinct (map fst m) \<Longrightarrow> distinct (map fst (snd (fst (globLoop E opts ps (ws, m)))))"
  by (induction ps arbitrary: ws m) (auto simp: distinct_registerDetails split: sum.splits)

lemma keys_globLoop:
  "fst ` set (snd (fst (globLoop E opts ps (ws, m)))) =
     fst ` set m \<union> file_fd ` set (resolvedDetails E opts ps)"
proof (induction ps arbitrary: ws m)
  case Nil
  then show ?case by simp
next
  case (Cons p ps)
  show ?case
  proof (cases "expandPattern E opts p")
    case (Inl e)
    then show ?thesis by simp
  next
    case (Inr r)
    then show ?thesis
      by (cases r) (simp add: Cons.IH keys_registerDetails image_Un Un_assoc)
  qed
qed

lemma snd_globPhase:
  "snd (globPhase E opts) = snd (fst (globLoop E opts (patternsOf opts) ([], [])))"
  by (simp add: globPhase_def split: prod.splits option.splits)

lemma keys_globPhase:
  "Map_has (snd (globPhase E opts)) k \<longleftrightarrow>
     k \<in> file_fd ` set (resolvedDetails E opts (patternsOf opts))"
  by (simp add: Map_has_def snd_globPhase keys_globLoop)

subsection \<open>First registration wins\<close>

text \<open>The templated URLs never replace an entry: a key that is held when their loop starts
  makes it throw if it comes up again.\<close>

lemma templatedLoop_map_of:
  "templatedLoop E opts ts (ws, m) = Inr (ws', m') \<Longrightarrow> map_of m k = Some d \<Longrightarrow> map_of m' k = Some d"
proof (induction ts arbitrary: ws m)
  case Nil
  then show ?case by simp
next
  case (Cons t ts)
  obtain url deps where t: "t = (url, deps)" by (cases t)
  from Cons.prems(2) have has: "Map_has m k" by (simp add: Map_has_iff)
  show ?case
  proof (cases deps)
    case (DepArray ps)
    from Cons.prems(1) obtain ws1 details where
      n: "\<not> Map_has m url" and
      l: "templatedLoop E opts ts (ws1, Map_set m url (getCompositeDetails E url details)) = Inr (ws', m')"
      by (auto simp: t DepArray split: if_splits sum.splits)
    from n has have "k \<noteq> url" by auto
    with Cons.prems(2) have "map_of (Map_set m url (getCompositeDetails E url details)) k = Some d"
      by (simp add: map_of_Map_set)
    from Cons.IH [OF l this] show ?thesis .
  next
    case (DepString rev)
    from Cons.prems(1) have
      n: "\<not> Map_has m url" and
      l: "templatedLoop E opts ts (ws, Map_set m url (getStringDetails E url rev)) = Inr (ws', m')"
      by (auto simp: t DepString split: if_splits)
    from n has have "k \<noteq> url" by auto
    with Cons.prems(2) have "map_of (Map_set m url (getStringDetails E url rev)) k = Some d"
      by (simp add: map_of_Map_set)
    from Cons.IH [OF l this] show ?thesis .
  qed
qed

lemma templatedPhase_map_of:
  assumes "templatedPhase E opts = Inr (ws, m)" and "map_of (snd (globPhase E opts)) k = Some d"
  shows "map_of m k = Some d"
proof (cases "templatedURLs opts")
  case None
  with assms show ?thesis by (simp add: templatedPhase_def)
next
  case (Some ts)
  obtain ws0 m0 where g: "globPhase E opts = (ws0, m0)" by (cases "globPhase E opts")
  from assms(1) Some g have "templatedLoop E opts ts (ws0, m0) = Inr (ws, m)"
    by (simp add: templatedPhase_def)
  from templatedLoop_map_of [OF this] assms(2) g show ?thesis by simp
qed

text \<open>
  Claim C6. For every sequence of resolved file details, the entry set that
  \<^verbatim>\<open>getFileManifestEntries\<close> builds is a first-write-wins map keyed by URL: after the
  direct glob patterns, looking a key up gives the first detail with that \<^verbatim>\<open>file\<close> in
  registration order (pattern-list order, then the match order of each pattern); every
  later detail with the same key is ignored, no key is held twice, and the entry is still
  the same, unmerged, after the templated URLs have been added.
\<close>

theorem first_write_wins:
  "Map_get (snd (globPhase E opts)) k =
     List.find (\<lambda>d. file_fd d = k) (resolvedDetails E opts (patternsOf opts))
   \<and> distinct (map fst (snd (globPhase E opts)))
   \<and> (\<forall>ws m d. templatedPhase E opts = Inr (ws, m) \<longrightarrow>
         Map_get (snd (globPhase E opts)) k = Some d \<longrightarrow> Map_get m k = Some d)"
  using templatedPhase_map_of [of E opts _ _ k]
  by (simp add: snd_globPhase Map_get_def map_of_globLoop distinct_globLoop)

text \<open>The file \<^verbatim>\<open>app.js\<close> is matched by two patterns; the details of the first match
  stay, also after a templated URL has been added.\<close>

theorem first_write_wins_witness:
  "resolvedDetails demoEnv
     (demoOptions\<lparr>globPatterns := Some [''**/*'', ''*.js''], templatedURLs := Some [(''/v'', DepString ''v1'')]\<rparr>)
     [''**/*'', ''*.js''] = [indexHtml, appJs, appJsLater]
   \<and> templatedPhase demoEnv
       (demoOptions\<lparr>globPatterns := Some [''**/*'', ''*.js''], templatedURLs := Some [(''/v'', DepString ''v1'')]\<rparr>)
     = Inr ([], [(''index.html'', indexHtml), (''app.js'', appJs),
                 (''/v'', \<lparr>file_fd = ''/v'', hash_fd = ''v1'', size_fd = 2\<rparr>)])
   \<and> Map_get (snd (globPhase demoEnv
       (demoOptions\<lparr>globPatterns := Some [''**/*'', ''*.js''], templatedURLs := Some [(''/v'', DepString ''v1'')]\<rparr>)))
       ''app.js'' = Some appJs
   \<and> Map_get [(''index.html'', indexHtml), (''app.js'', appJs),
               (''/v'', \<lparr>file_fd = ''/v'', hash_fd = ''v1'', size_fd = 2\<rparr>)] ''app.js'' = Some appJs"
proof -
  let ?o = "demoOptions\<lparr>globPatterns := Some [''**/*'', ''*.js''], templatedURLs := Some [(''/v'', DepString ''v1'')]\<rparr>"
  have r: "resolvedDetails demoEnv ?o [''**/*'', ''*.js''] = [indexHtml, appJs, appJsLater]"
    by (simp add: demo_defs)
  have p: "patternsOf ?o = [''**/*'', ''*.js'']" by (simp add: patternsOf_def demoOptions_def)
  have t: "templatedPhase demoEnv ?o
     = Inr ([], [(''index.html'', indexHtml), (''app.js'', appJs),
                 (''/v'', \<lparr>file_fd = ''/v'', hash_fd = ''v1'', size_fd = 2\<rparr>)])"
    by (simp add: templatedPhase_def globPhase_def patternsOf_def Map_has_def demo_defs)
  have f: "List.find (\<lambda>d. file_fd d = ''app.js'') [indexHtml, appJs, appJsLater] = Some appJs"
    by (simp add: demo_defs)
  note th = first_write_wins [of demoEnv ?o "''app.js''"]
  from th [THEN conjunct1, unfolded p r f]
  have g: "Map_get (snd (globPhase demoEnv ?o)) ''app.js'' = Some appJs" .
  from th t g have
    "Map_get [(''index.html'', indexHtml), (''app.js'', appJs),
              (''/v'', \<lparr>file_fd = ''/v'', hash_fd = ''v1'', size_fd = 2\<rparr>)] ''app.js'' = Some appJs"
    by blast
  with r t g show ?thesis by blast
qed

subsection \<open>A pattern whose expansion throws\<close>

lemma globLoop_globPatterns [simp]:
  "globLoop E (opts\<lparr>globPatterns := x\<rparr>) ps st = globLoop E opts ps st"
  by (induction ps arbitrary: st) (auto split: sum.splits)

lemma templatedReduce_globPatterns [simp]:
  "templatedReduce E (opts\<lparr>globPatterns := x\<rparr>) url deps ps st = templatedReduce E opts url deps ps st"
  by (induction ps arbitrary: st) (auto split: sum.splits)

lemma templatedLoop_globPatterns [simp]:
  "templatedLoop E (opts\<lparr>globPatterns := x\<rparr>) ts st = templatedLoop E opts ts st"
  by (induction E opts ts st rule: templatedLoop.induct) (auto split: sum.splits)

lemma globLoop_append:
  "\<forall>q\<in>set ps1. \<not> isl (expandPattern E opts q) \<Longrightarrow>
     globLoop E opts (ps1 @ rest) st = globLoop E opts rest (fst (globLoop E opts ps1 st))
     \<and> snd (globLoop E opts ps1 st) = None"
proof (induction ps1 arbitrary: st)
  case Nil
  then show ?case by simp
next
  case (Cons q qs)
  obtain ws m where st: "st = (ws, m)" by (cases st)
  from Cons.prems obtain fds w where q: "expandPattern E opts q = Inr (fds, w)"
    by (cases "expandPattern E opts q") auto
  from Cons.prems have "\<forall>q\<in>set qs. \<not> isl (expandPattern E opts q)" by simp
  from Cons.IH [OF this] show ?case by (simp add: st q)
qed

text \<open>The state after the \<^verbatim>\<open>try\<close>/\<^verbatim>\<open>catch\<close> when the patterns before \<open>p\<close> expand and
  \<open>p\<close> throws.\<close>

lemma globPhase_throw:
  assumes "globPatterns opts = Some (ps1 @ p # ps2)"
    and "\<forall>q\<in>set ps1. \<not> isl (expandPattern E opts q)"
    and "expandPattern E opts p = Inl e"
  shows "globPhase E opts =
           (case globPhase E (opts\<lparr>globPatterns := Some ps1\<rparr>) of
              (ws, m) \<Rightarrow>
                (if instanceofError e \<and> message e \<noteq> [] then (ws @ [message e], m) else (ws, m)))"
proof -
  obtain ws m where st: "fst (globLoop E opts ps1 ([], [])) = (ws, m)"
    by (cases "fst (globLoop E opts ps1 ([], []))")
  from globLoop_append [OF assms(2), of "[]" "([], [])"]
  have none: "globLoop E opts ps1 ([], []) = ((ws, m), None)"
    by (simp add: st prod_eq_iff)
  from globLoop_append [OF assms(2), of "p # ps2" "([], [])"]
  have "globLoop E opts (ps1 @ p # ps2) ([], []) = ((ws, m), Some e)"
    by (simp add: st assms(3))
  with none show ?thesis
    by (simp add: globPhase_def patternsOf_def assms(1))
qed

lemma getFileManifestEntries_cong_globPhase:
  assumes "globPhase E opts = globPhase E (opts\<lparr>globPatterns := x\<rparr>)"
  shows "getFileManifestEntries E opts = getFileManifestEntries E (opts\<lparr>globPatterns := x\<rparr>)"
  by (simp add: getFileManifestEntries_def templatedPhase_def assms [symmetric]
        cong: option.case_cong sum.case_cong prod.case_cong)

subsection \<open>A failure that leaves no trace\<close>

text \<open>
  Claim C10. If the expansion of a direct glob pattern throws a value that is not an Error
  instance, or an Error whose message is empty, \<^verbatim>\<open>getFileManifestEntries\<close> records no
  warning for it: the run gives exactly what it gives for the patterns before the failing
  one alone, so the result carries no trace of the exception.
\<close>

theorem silent_glob_failure:
  assumes "globPatterns opts = Some (ps1 @ p # ps2)"
    and "\<forall>q\<in>set ps1. \<not> isl (expandPattern E opts q)"
    and "expandPattern E opts p = Inl e"
    and "\<not> instanceofError e \<or> message e = []"
  shows "getFileManifestEntries E opts = getFileManifestEntries E (opts\<lparr>globPatterns := Some ps1\<rparr>)"
proof -
  from globPhase_throw [OF assms(1-3)] assms(4)
  have "globPhase E opts = globPhase E (opts\<lparr>globPatterns := Some ps1\<rparr>)"
    by (auto split: prod.splits)
  then show ?thesis by (rule getFileManifestEntries_cong_globPhase)
qed

text \<open>A pattern that throws a value that is no Error, and one that throws an Error with
  an empty message.\<close>

theorem silent_glob_failure_witness:
  "getFileManifestEntries demoEnv (demoOptions\<lparr>globPatterns := Some [''*.html'', ''{'', ''*.js'']\<rparr>)
     = getFileManifestEntries demoEnv (demoOptions\<lparr>globPatterns := Some [''*.html'']\<rparr>)
   \<and> getFileManifestEntries demoEnv (demoOptions\<lparr>globPatterns := Some [''*.html'', ''('', ''*.js'']\<rparr>)
     = Inr \<lparr>count = 1, size_m = 10,
            manifestEntries = Some [[(''url'', JString ''index.html''), (''revision'', JString ''h1'')]],
            warnings = []\<rparr>"
proof -
  have a: "getFileManifestEntries demoEnv (demoOptions\<lparr>globPatterns := Some [''*.html'', ''{'', ''*.js'']\<rparr>)
     = getFileManifestEntries demoEnv (demoOptions\<lparr>globPatterns := Some [''*.html'']\<rparr>)"
    using silent_glob_failure [of "demoOptions\<lparr>globPatterns := Some [''*.html'', ''{'', ''*.js'']\<rparr>"
        "[''*.html'']" "''{''" "[''*.js'']" demoEnv NonError]
    by (simp add: demo_defs)
  have b: "getFileManifestEntries demoEnv (demoOptions\<lparr>globPatterns := Some [''*.html'', ''('', ''*.js'']\<rparr>)
     = getFileManifestEntries demoEnv (demoOptions\<lparr>globPatterns := Some [''*.html'']\<rparr>)"
    using silent_glob_failure [of "demoOptions\<lparr>globPatterns := Some [''*.html'', ''('', ''*.js'']\<rparr>"
        "[''*.html'']" "''(''" "[''*.js'']" demoEnv "Error []"]
    by (simp add: demo_defs)
  have c: "getFileManifestEntries demoEnv (demoOptions\<lparr>globPatterns := Some [''*.html'']\<rparr>)
     = Inr \<lparr>count = 1, size_m = 10,
            manifestEntries = Some [[(''url'', JString ''index.html''), (''revision'', JString ''h1'')]],
            warnings = []\<rparr>"
    by (simp add: getFileManifestEntries_def templatedPhase_def globPhase_def patternsOf_def transformManifest_def
          Map_values_def Map_has_def demo_defs)
  from a b c show ?thesis by simp
qed

subsection \<open>A failure that is reported as a warning\<close>

lemma pushWarning_extends: "\<exists>extra. pushWarning w ws = ws @ extra"
  by (cases w) auto

lemma templatedReduce_warnings:
  "templatedReduce E opts url deps ps (ws, prev) = Inr (ws', details) \<Longrightarrow> \<exists>extra. ws' = ws @ extra"
proof (induction ps arbitrary: ws prev)
  case Nil
  then show ?case by simp
next
  case (Cons p ps)
  from Cons.prems obtain fds w where p: "expandPattern E opts p = Inr (fds, w)"
    by (cases "expandPattern E opts p") auto
  obtain x where x: "pushWarning w ws = ws @ x" using pushWarning_extends by blast
  from Cons.prems have "templatedReduce E opts url deps ps (ws @ x, prev @ fds) = Inr (ws', details)"
    by (simp add: p x)
  from Cons.IH [OF this] show ?case by auto
qed

lemma templatedLoop_warnings:
  "templatedLoop E opts ts (ws, m) = Inr (ws', m') \<Longrightarrow> \<exists>extra. ws' = ws @ extra"
proof (induction ts arbitrary: ws m)
  case Nil
  then show ?case by simp
next
  case (Cons t ts)
  obtain url d where t: "t = (url, d)" by (cases t)
  show ?case
  proof (cases d)
    case (DepArray deps)
    from Cons.prems obtain ws1 details where
      r: "templatedReduce E opts url deps deps (ws, []) = Inr (ws1, details)" and
      l: "templatedLoop E opts ts (ws1, Map_set m url (getCompositeDetails E url details)) = Inr (ws', m')"
      by (auto simp: t DepArray split: if_splits sum.splits)
    from templatedReduce_warnings [OF r] Cons.IH [OF l] show ?thesis by auto
  next
    case (DepString rev)
    from Cons.prems have
      "templatedLoop E opts ts (ws, Map_set m url (getStringDetails E url rev)) = Inr (ws', m')"
      by (auto simp: t DepString split: if_splits)
    from Cons.IH [OF this] show ?thesis .
  qed
qed

lemma getFileManifestEntries_warnings:
  assumes "getFileManifestEntries E opts = Inr r"
  shows "set (fst (globPhase E opts)) \<subseteq> set (warnings r)"
proof -
  obtain ws m where g: "globPhase E opts = (ws, m)" by (cases "globPhase E opts")
  from assms obtain ws' m' where
    t: "(case templatedURLs opts of None \<Rightarrow> Inr (ws, m) | Some ts \<Rightarrow> templatedLoop E opts ts (ws, m))
          = Inr (ws', m')" and
    w: "set ws' \<subseteq> set (warnings r)"
    by (auto simp: getFileManifestEntries_def templatedPhase_def g split: sum.splits cong: option.case_cong)
  from t have "\<exists>extra. ws' = ws @ extra"
    by (cases "templatedURLs opts") (auto dest: templatedLoop_warnings)
  with w show ?thesis by (auto simp: g)
qed

text \<open>The warnings that are held when the templated URLs are resolved stay in front of
  those that the resolution adds, and have no other effect on it.\<close>

lemma pushWarning_prefix: "pushWarning w (ws @ ws0) = ws @ pushWarning w ws0"
  by (cases w) auto

lemma templatedReduce_prefix:
  "templatedReduce E opts url deps ps (ws @ ws0, prev) =
     (case templatedReduce E opts url deps ps (ws0, prev) of
        Inl e \<Rightarrow> Inl e
      | Inr (x, details) \<Rightarrow> Inr (ws @ x, details))"
proof (induction ps arbitrary: ws0 prev)
  case Nil
  then show ?case by simp
next
  case (Cons p ps)
  show ?case
  proof (cases "expandPattern E opts p")
    case (Inl e)
    then show ?thesis by simp
  next
    case (Inr r)
    obtain fds w where r: "r = (fds, w)" by (cases r)
    show ?thesis by (simp add: Inr r pushWarning_prefix Cons.IH)
  qed
qed

lemma templatedLoop_prefix:
  "templatedLoop E opts ts (ws @ ws0, m) =
     (case templatedLoop E opts ts (ws0, m) of
        Inl e \<Rightarrow> Inl e
      | Inr (x, m') \<Rightarrow> Inr (ws @ x, m'))"
proof (induction ts arbitrary: ws0 m)
  case Nil
  then show ?case by simp
next
  case (Cons t ts)
  obtain url d where t: "t = (url, d)" by (cases t)
  show ?case
  proof (cases d)
    case (DepArray deps)
    show ?thesis
      by (simp add: t DepArray templatedReduce_prefix [of E opts url deps deps ws ws0] Cons.IH
            split: sum.splits prod.splits)
  next
    case (DepString rev)
    show ?thesis by (simp add: t DepString Cons.IH)
  qed
qed

text \<open>The run as a function of the state that the direct glob patterns leave.\<close>

lemma getFileManifestEntries_extra_warning:
  assumes "globPhase E opts = (ws @ [w], m)" and "globPhase E opts1 = (ws, m)"
    and "opts1 = opts\<lparr>globPatterns := x\<rparr>"
  shows "(\<forall>e'. getFileManifestEntries E opts1 = Inl e' \<longrightarrow> getFileManifestEntries E opts = Inl e')
       \<and> (\<forall>r1. getFileManifestEntries E opts1 = Inr r1 \<longrightarrow>
             (\<exists>a b. warnings r1 = a @ b \<and>
                    getFileManifestEntries E opts = Inr (r1\<lparr>warnings := a @ [w] @ b\<rparr>)))"
proof -
  define R0 where "R0 = (case templatedURLs opts of
                            None \<Rightarrow> Inr ([], m)
                          | Some ts \<Rightarrow> templatedLoop E opts ts ([], m))"
  have p1: "templatedPhase E opts1 = (case R0 of Inl e \<Rightarrow> Inl e | Inr (x, m') \<Rightarrow> Inr (ws @ x, m'))"
    using templatedLoop_prefix [of E opts _ ws "[]" m]
    by (simp add: templatedPhase_def assms(2) assms(3) [symmetric] R0_def split: option.splits)
       (simp add: assms(3))
  have p: "templatedPhase E opts = (case R0 of Inl e \<Rightarrow> Inl e | Inr (x, m') \<Rightarrow> Inr ((ws @ [w]) @ x, m'))"
    using templatedLoop_prefix [of E opts _ "ws @ [w]" "[]" m]
    by (simp add: templatedPhase_def assms(1) R0_def split: option.splits)
  show ?thesis
  proof (cases R0)
    case (Inl e)
    with p p1 show ?thesis by (simp add: getFileManifestEntries_def)
  next
    case (Inr r)
    obtain x m' where r: "r = (x, m')" by (cases r)
    show ?thesis
    proof (cases "transformManifest E (additionalPrecacheEntries opts) (dontCacheBustURLsMatching opts)
                    (manifestTransforms opts) (maximumFileSizeToCacheInBytes opts)
                    (modifyURLPrefix opts) (Map_values m') (disablePrecacheManifest opts)")
      case (Inl e)
      with p p1 Inr r show ?thesis by (simp add: getFileManifestEntries_def assms(3))
    next
      case t: (Inr t)
      have 1: "getFileManifestEntries E opts1 = Inr (t\<lparr>warnings := warnings t @ ws @ x\<rparr>)"
        using p1 Inr r t by (simp add: getFileManifestEntries_def assms(3))
      have 2: "getFileManifestEntries E opts = Inr (t\<lparr>warnings := (warnings t @ ws) @ [w] @ x\<rparr>)"
        using p Inr r t by (simp add: getFileManifestEntries_def)
      have 3: "warnings (t\<lparr>warnings := warnings t @ ws @ x\<rparr>) = (warnings t @ ws) @ x" by simp
      show ?thesis
      proof (intro conjI allI impI)
        fix e' assume "getFileManifestEntries E opts1 = Inl e'"
        with 1 show "getFileManifestEntries E opts = Inl e'" by simp
      next
        fix r1 assume "getFileManifestEntries E opts1 = Inr r1"
        with 1 have r1: "r1 = t\<lparr>warnings := warnings t @ ws @ x\<rparr>" by simp
        have "warnings r1 = (warnings t @ ws) @ x
              \<and> getFileManifestEntries E opts = Inr (r1\<lparr>warnings := (warnings t @ ws) @ [w] @ x\<rparr>)"
          using 2 by (simp add: r1)
        then show "\<exists>a b. warnings r1 = a @ b \<and>
                    getFileManifestEntries E opts = Inr (r1\<lparr>warnings := a @ [w] @ b\<rparr>)"
          by blast
      qed
    qed
  qed
qed


text \<open>
  Claim C5 says that after a direct glob pattern whose expansion throws, the remaining
  patterns are still expanded and contribute their file details. The \<^verbatim>\<open>try\<close> encloses
  the whole loop, so the first throw ends it: below, \<^verbatim>\<open>*.js\<close> would resolve
  \<^verbatim>\<open>app.js\<close>, but it comes after the failing pattern and the manifest has
  \<^verbatim>\<open>index.html\<close> only.
\<close>

theorem glob_failure_not_per_pattern_counterexample:
  "expandPattern demoEnv (demoOptions\<lparr>globPatterns := Some [''*.html'', ''['', ''*.js'']\<rparr>) ''*.js''
     = Inr ([appJsLater], None)
   \<and> getFileManifestEntries demoEnv (demoOptions\<lparr>globPatterns := Some [''*.html'', ''['', ''*.js'']\<rparr>)
     = Inr \<lparr>count = 1, size_m = 10,
            manifestEntries = Some [[(''url'', JString ''index.html''), (''revision'', JString ''h1'')]],
            warnings = [''boom'']\<rparr>"
  by (simp add: getFileManifestEntries_def templatedPhase_def globPhase_def patternsOf_def transformManifest_def
        Map_values_def Map_has_def demo_defs)

text \<open>
  Claim C5, amended. For every ordered list of direct glob patterns, if the patterns before
  \<open>p\<close> expand and the expansion of \<open>p\<close> throws an Error with a non-empty message, then the
  message is recorded as a warning instead of aborting the run and the file details of the
  earlier patterns are kept; the patterns after \<open>p\<close> are not expanded and have no effect on
  the run; and whenever the run returns a result, the message is among its warnings. The
  failure does not abort the run: the run aborts only when the run over the patterns before
  \<open>p\<close> alone aborts, and then with the same error; and when that run returns a result, the
  run returns the same result (count, size and entries) with the message added to the
  warnings.
\<close>

theorem glob_failure_warns_and_stops:
  assumes "globPatterns opts = Some (ps1 @ p # ps2)"
    and "\<forall>q\<in>set ps1. \<not> isl (expandPattern E opts q)"
    and "expandPattern E opts p = Inl e"
    and "instanceofError e" and "message e \<noteq> []"
  shows "globPhase E opts =
           (fst (globPhase E (opts\<lparr>globPatterns := Some ps1\<rparr>)) @ [message e],
            snd (globPhase E (opts\<lparr>globPatterns := Some ps1\<rparr>)))
         \<and> getFileManifestEntries E opts =
             getFileManifestEntries E (opts\<lparr>globPatterns := Some (ps1 @ [p])\<rparr>)
         \<and> (\<forall>r. getFileManifestEntries E opts = Inr r \<longrightarrow> message e \<in> set (warnings r))
         \<and> (\<forall>e'. getFileManifestEntries E (opts\<lparr>globPatterns := Some ps1\<rparr>) = Inl e' \<longrightarrow>
                getFileManifestEntries E opts = Inl e')
         \<and> (\<forall>r1. getFileManifestEntries E (opts\<lparr>globPatterns := Some ps1\<rparr>) = Inr r1 \<longrightarrow>
                (\<exists>a b. warnings r1 = a @ b \<and>
                       getFileManifestEntries E opts = Inr (r1\<lparr>warnings := a @ [message e] @ b\<rparr>)))"
proof -
  let ?o1 = "opts\<lparr>globPatterns := Some ps1\<rparr>"
  let ?o2 = "opts\<lparr>globPatterns := Some (ps1 @ [p])\<rparr>"
  from globPhase_throw [OF assms(1-3)] assms(4,5)
  have a: "globPhase E opts = (fst (globPhase E ?o1) @ [message e], snd (globPhase E ?o1))"
    by (simp split: prod.splits)
  have "globPhase E ?o2 =
          (case globPhase E (?o2\<lparr>globPatterns := Some ps1\<rparr>) of
             (ws, m) \<Rightarrow>
               (if instanceofError e \<and> message e \<noteq> [] then (ws @ [message e], m) else (ws, m)))"
    by (rule globPhase_throw [where ?ps2.0 = "[]" and p = p]) (simp_all add: assms(2,3))
  with assms(4,5) have "globPhase E ?o2 = (fst (globPhase E ?o1) @ [message e], snd (globPhase E ?o1))"
    by (simp split: prod.splits)
  with a have "globPhase E opts = globPhase E ?o2" by simp
  then have b: "getFileManifestEntries E opts = getFileManifestEntries E ?o2"
    by (rule getFileManifestEntries_cong_globPhase)
  have c: "\<forall>r. getFileManifestEntries E opts = Inr r \<longrightarrow> message e \<in> set (warnings r)"
  proof (intro allI impI)
    fix r assume "getFileManifestEntries E opts = Inr r"
    from getFileManifestEntries_warnings [OF this] a show "message e \<in> set (warnings r)" by auto
  qed
  have g1: "globPhase E ?o1 = (fst (globPhase E ?o1), snd (globPhase E ?o1))" by simp
  note d = getFileManifestEntries_extra_warning [OF a g1 refl]
  from a b c d show ?thesis by blast
qed

text \<open>A throwing pattern between two that expand: a run that returns, and one that aborts
  as it does without the throwing pattern, on a templated URL that has no dependencies.\<close>

theorem glob_failure_warns_and_stops_witness:
  "globPhase demoEnv (demoOptions\<lparr>globPatterns := Some [''*.html'', ''['', ''*.js'']\<rparr>)
     = ([''boom''], [(''index.html'', indexHtml)])
   \<and> getFileManifestEntries demoEnv (demoOptions\<lparr>globPatterns := Some [''*.html'', ''['', ''*.js'']\<rparr>)
     = getFileManifestEntries demoEnv (demoOptions\<lparr>globPatterns := Some [''*.html'', ''['']\<rparr>)
   \<and> getFileManifestEntries demoEnv (demoOptions\<lparr>globPatterns := Some [''*.html'']\<rparr>)
     = Inr \<lparr>count = 1, size_m = 10,
            manifestEntries = Some [[(''url'', JString ''index.html''), (''revision'', JString ''h1'')]],
            warnings = []\<rparr>
   \<and> getFileManifestEntries demoEnv (demoOptions\<lparr>globPatterns := Some [''*.html'', ''['', ''*.js'']\<rparr>)
     = Inr \<lparr>count = 1, size_m = 10,
            manifestEntries = Some [[(''url'', JString ''index.html''), (''revision'', JString ''h1'')]],
            warnings = [''boom'']\<rparr>
   \<and> getFileManifestEntries demoEnv
        (demoOptions\<lparr>templatedURLs := Some [(''/shell'', DepArray [''partials/*.html''])],
                      globPatterns := Some [''*.html'']\<rparr>)
     = Inl (Error (''bad templated URL asset The glob pattern '' @ [CHR 0x27] @ ''partials/*.html'' @
                   [CHR 0x27] @ '' did not match anything.''))
   \<and> getFileManifestEntries demoEnv
        (demoOptions\<lparr>templatedURLs := Some [(''/shell'', DepArray [''partials/*.html''])],
                      globPatterns := Some [''*.html'', ''['', ''*.js'']\<rparr>)
     = Inl (Error (''bad templated URL asset The glob pattern '' @ [CHR 0x27] @ ''partials/*.html'' @
                   [CHR 0x27] @ '' did not match anything.''))"
proof -
  let ?o = "demoOptions\<lparr>globPatterns := Some [''*.html'', ''['', ''*.js'']\<rparr>"
  let ?t = "demoOptions\<lparr>templatedURLs := Some [(''/shell'', DepArray [''partials/*.html''])],
                        globPatterns := Some [''*.html'', ''['', ''*.js'']\<rparr>"
  let ?r1 = "\<lparr>count = 1, size_m = 10,
              manifestEntries = Some [[(''url'', JString ''index.html''), (''revision'', JString ''h1'')]],
              warnings = []\<rparr>"
  let ?err = "Error (''bad templated URL asset The glob pattern '' @ [CHR 0x27] @ ''partials/*.html'' @
                   [CHR 0x27] @ '' did not match anything.'')"
  have g: "globPhase demoEnv (demoOptions\<lparr>globPatterns := Some [''*.html'']\<rparr>)
          = ([], [(''index.html'', indexHtml)])"
    by (simp add: globPhase_def patternsOf_def Map_has_def demo_defs)
  have r1: "getFileManifestEntries demoEnv (?o\<lparr>globPatterns := Some [''*.html'']\<rparr>) = Inr ?r1"
    by (simp add: getFileManifestEntries_def templatedPhase_def globPhase_def patternsOf_def
          transformManifest_def Map_values_def Map_has_def demo_defs)
  have e1: "getFileManifestEntries demoEnv (?t\<lparr>globPatterns := Some [''*.html'']\<rparr>) = Inl ?err"
    by (simp add: getFileManifestEntries_def templatedPhase_def globPhase_def patternsOf_def
          Map_has_def demo_defs)
  note th = glob_failure_warns_and_stops [of ?o "[''*.html'']" "''[''" "[''*.js'']" demoEnv "Error ''boom''"]
  have h: "globPatterns ?o = Some ([''*.html''] @ ''['' # [''*.js''])"
      "\<forall>q\<in>set [''*.html'']. \<not> isl (expandPattern demoEnv ?o q)"
      "expandPattern demoEnv ?o ''['' = Inl (Error ''boom'')"
      "instanceofError (Error ''boom'')" "message (Error ''boom'') \<noteq> []"
    by (simp_all add: demo_defs)
  note th1 = th [OF h]
  from th1 r1 obtain a b where ab: "warnings ?r1 = a @ b"
      "getFileManifestEntries demoEnv ?o = Inr (?r1\<lparr>warnings := a @ [message (Error ''boom'')] @ b\<rparr>)"
    by blast
  from ab(1) have "a = []" "b = []" by simp_all
  with ab(2) have run: "getFileManifestEntries demoEnv ?o = Inr (?r1\<lparr>warnings := [''boom'']\<rparr>)" by simp
  have ht: "globPatterns ?t = Some ([''*.html''] @ ''['' # [''*.js''])"
      "\<forall>q\<in>set [''*.html'']. \<not> isl (expandPattern demoEnv ?t q)"
      "expandPattern demoEnv ?t ''['' = Inl (Error ''boom'')"
    by (simp_all add: demo_defs)
  from glob_failure_warns_and_stops [OF ht h(4,5)] e1
  have ab: "getFileManifestEntries demoEnv ?t = Inl ?err" by blast
  from th1 g have s: "globPhase demoEnv ?o = ([''boom''], [(''index.html'', indexHtml)])
     \<and> getFileManifestEntries demoEnv ?o
        = getFileManifestEntries demoEnv (demoOptions\<lparr>globPatterns := Some [''*.html'', ''['']\<rparr>)"
    by simp
  from s r1 run e1 ab show ?thesis by simp
qed

subsection \<open>Fatal errors of the templated URLs\<close>

lemma globLoop_transformStages [simp]:
  "globLoop (E\<lparr>transformStages := f\<rparr>) opts ps st = globLoop E opts ps st"
  by (induction ps arbitrary: st) (auto split: sum.splits)

lemma globPhase_transformStages [simp]:
  "globPhase (E\<lparr>transformStages := f\<rparr>) opts = globPhase E opts"
  by (simp add: globPhase_def)

lemma templatedReduce_transformStages [simp]:
  "templatedReduce (E\<lparr>transformStages := f\<rparr>) opts url deps ps st = templatedReduce E opts url deps ps st"
  by (induction ps arbitrary: st) (auto split: sum.splits)

lemma templatedLoop_transformStages [simp]:
  "templatedLoop (E\<lparr>transformStages := f\<rparr>) opts ts st = templatedLoop E opts ts st"
  by (induction E opts ts st rule: templatedLoop.induct) (auto split: sum.splits)

text \<open>When the loop over the templated URLs throws, so does the function, whatever the
  transform stages are: they are not reached.\<close>

lemma getFileManifestEntries_fatal:
  assumes "templatedURLs opts = Some ts" and "templatedLoop E opts ts (globPhase E opts) = Inl e"
  shows "getFileManifestEntries (E\<lparr>transformStages := f\<rparr>) opts = Inl e"
  using assms by (simp add: getFileManifestEntries_def templatedPhase_def)

lemma templatedLoop_Map_has:
  "templatedLoop E opts ts (ws, m) = Inr (ws', m') \<Longrightarrow> Map_has m k \<Longrightarrow> Map_has m' k"
proof (induction ts arbitrary: ws m)
  case Nil
  then show ?case by simp
next
  case (Cons t ts)
  obtain url d where t: "t = (url, d)" by (cases t)
  show ?case
  proof (cases d)
    case (DepArray deps)
    from Cons.prems(1) obtain ws1 details where
      l: "templatedLoop E opts ts (ws1, Map_set m url (getCompositeDetails E url details)) = Inr (ws', m')"
      by (auto simp: t DepArray split: if_splits sum.splits)
    from Cons.IH [OF l] Cons.prems(2) show ?thesis by (simp add: Map_has_Map_set)
  next
    case (DepString rev)
    from Cons.prems(1) have
      l: "templatedLoop E opts ts (ws, Map_set m url (getStringDetails E url rev)) = Inr (ws', m')"
      by (auto simp: t DepString split: if_splits)
    from Cons.IH [OF l] Cons.prems(2) show ?thesis by (simp add: Map_has_Map_set)
  qed
qed

lemma templatedLoop_append:
  "templatedLoop E opts (pre @ rest) st =
     (case templatedLoop E opts pre st of Inl e \<Rightarrow> Inl e | Inr st' \<Rightarrow> templatedLoop E opts rest st')"
  by (induction E opts pre st rule: templatedLoop.induct) (auto split: sum.splits)

lemma templatedLoop_collision_head:
  "Map_has m url \<Longrightarrow>
     templatedLoop E opts ((url, d) # rest) (ws, m) = Inl (AssertionError (errors E ''templated-url-matches-glob''))"
  by (cases d) simp_all

lemma templatedLoop_collision:
  "(url, d) \<in> set ts \<Longrightarrow> Map_has m url \<Longrightarrow> \<exists>e. templatedLoop E opts ts (ws, m) = Inl e"
proof (induction ts arbitrary: ws m)
  case Nil
  then show ?case by simp
next
  case (Cons t ts)
  show ?case
  proof (cases "t = (url, d)")
    case True
    with Cons.prems(2) show ?thesis by (simp add: templatedLoop_collision_head)
  next
    case False
    with Cons.prems(1) have mem: "(url, d) \<in> set ts" by simp
    show ?thesis
    proof (cases "templatedLoop E opts [t] (ws, m)")
      case (Inl e)
      with templatedLoop_append [of E opts "[t]" ts "(ws, m)"] show ?thesis by simp
    next
      case (Inr st')
      obtain ws' m' where st': "st' = (ws', m')" by (cases st')
      from templatedLoop_Map_has [OF Inr [unfolded st'] Cons.prems(2)] have "Map_has m' url" .
      from Cons.IH [OF mem this, of ws'] templatedLoop_append [of E opts "[t]" ts "(ws, m)"]
      show ?thesis by (simp add: Inr st')
    qed
  qed
qed

text \<open>
  Claim C3 says that a templated URL equal to a URL of direct glob expansion always makes
  the run abort with the collision error. The templated URLs are resolved in key order and
  the first fatal error ends the run: below, \<^verbatim>\<open>index.html\<close> collides, but \<^verbatim>\<open>/shell\<close>
  comes first and has no dependencies, so the run aborts with that error instead.
\<close>

theorem templated_collision_counterexample:
  "Map_has (snd (globPhase demoEnv
       (demoOptions\<lparr>templatedURLs :=
          Some [(''/shell'', DepArray [''partials/*.html'']), (''index.html'', DepString ''v1'')]\<rparr>)))
     ''index.html''
   \<and> getFileManifestEntries demoEnv
       (demoOptions\<lparr>templatedURLs :=
          Some [(''/shell'', DepArray [''partials/*.html'']), (''index.html'', DepString ''v1'')]\<rparr>)
     = Inl (Error (''bad templated URL asset The glob pattern '' @ [CHR 0x27] @ ''partials/*.html'' @
                   [CHR 0x27] @ '' did not match anything.''))"
  by (simp add: getFileManifestEntries_def templatedPhase_def globPhase_def patternsOf_def Map_has_def demo_defs)

text \<open>
  Claim C3, amended. For every configuration in which a templated URL equals a URL that
  direct glob expansion has produced, \<^verbatim>\<open>getFileManifestEntries\<close> aborts with a fatal
  error, the same whatever the transform stages are (they are not reached). The error is
  the collision error (the assertion with the message \<^verbatim>\<open>templated-url-matches-glob\<close>)
  when the templated URLs listed before the colliding one resolve without a fatal error;
  otherwise it is the fatal error with which the first of them that fails ends the loop.
\<close>

theorem templated_collision_fatal:
  assumes "templatedURLs opts = Some (pre @ (url, d) # post)"
    and "url \<in> file_fd ` set (resolvedDetails E opts (patternsOf opts))"
  shows "(\<exists>e. \<forall>f. getFileManifestEntries (E\<lparr>transformStages := f\<rparr>) opts = Inl e)
         \<and> (\<forall>st. templatedLoop E opts pre (globPhase E opts) = Inr st \<longrightarrow>
               (\<forall>f. getFileManifestEntries (E\<lparr>transformStages := f\<rparr>) opts =
                     Inl (AssertionError (errors E ''templated-url-matches-glob''))))
         \<and> (\<forall>e'. templatedLoop E opts pre (globPhase E opts) = Inl e' \<longrightarrow>
               (\<forall>f. getFileManifestEntries (E\<lparr>transformStages := f\<rparr>) opts = Inl e'))"
proof -
  obtain ws m where g: "globPhase E opts = (ws, m)" by (cases "globPhase E opts")
  from assms(2) have has: "Map_has m url"
    using keys_globPhase [of E opts url] by (simp add: g)
  have "(url, d) \<in> set (pre @ (url, d) # post)" by simp
  from templatedLoop_collision [OF this has, of E opts ws]
  obtain e where e: "templatedLoop E opts (pre @ (url, d) # post) (globPhase E opts) = Inl e"
    by (auto simp: g)
  have a: "\<exists>e. \<forall>f. getFileManifestEntries (E\<lparr>transformStages := f\<rparr>) opts = Inl e"
    using getFileManifestEntries_fatal [OF assms(1) e] by blast
  have b: "\<forall>st. templatedLoop E opts pre (globPhase E opts) = Inr st \<longrightarrow>
               (\<forall>f. getFileManifestEntries (E\<lparr>transformStages := f\<rparr>) opts =
                     Inl (AssertionError (errors E ''templated-url-matches-glob'')))"
  proof (intro allI impI)
    fix st f
    assume pre: "templatedLoop E opts pre (globPhase E opts) = Inr st"
    obtain ws' m' where st: "st = (ws', m')" by (cases st)
    from templatedLoop_Map_has [OF pre [unfolded g st] has] have "Map_has m' url" .
    then have "templatedLoop E opts (pre @ (url, d) # post) (globPhase E opts) =
                 Inl (AssertionError (errors E ''templated-url-matches-glob''))"
      by (simp add: templatedLoop_append pre st templatedLoop_collision_head)
    from getFileManifestEntries_fatal [OF assms(1) this]
    show "getFileManifestEntries (E\<lparr>transformStages := f\<rparr>) opts =
            Inl (AssertionError (errors E ''templated-url-matches-glob''))" .
  qed
  have c: "\<forall>e'. templatedLoop E opts pre (globPhase E opts) = Inl e' \<longrightarrow>
               (\<forall>f. getFileManifestEntries (E\<lparr>transformStages := f\<rparr>) opts = Inl e')"
  proof (intro allI impI)
    fix e' f
    assume pre: "templatedLoop E opts pre (globPhase E opts) = Inl e'"
    then have "templatedLoop E opts (pre @ (url, d) # post) (globPhase E opts) = Inl e'"
      by (simp add: templatedLoop_append)
    from getFileManifestEntries_fatal [OF assms(1) this]
    show "getFileManifestEntries (E\<lparr>transformStages := f\<rparr>) opts = Inl e'" .
  qed
  from a b c show ?thesis by blast
qed

text \<open>The colliding URL \<^verbatim>\<open>index.html\<close> after a templated URL that resolves, and after one
  that has no dependencies.\<close>

theorem templated_collision_fatal_witness:
  "''index.html'' \<in> file_fd ` set (resolvedDetails demoEnv
       (demoOptions\<lparr>templatedURLs := Some [(''/v'', DepString ''v1''), (''index.html'', DepArray [''*.js''])]\<rparr>)
       [''**/*''])
   \<and> getFileManifestEntries demoEnv
       (demoOptions\<lparr>templatedURLs := Some [(''/v'', DepString ''v1''), (''index.html'', DepArray [''*.js''])]\<rparr>)
     = Inl (AssertionError ''templated URL matches glob'')
   \<and> templatedLoop demoEnv
       (demoOptions\<lparr>templatedURLs :=
          Some [(''/shell'', DepArray [''partials/*.html'']), (''index.html'', DepArray [''*.js''])]\<rparr>)
       [(''/shell'', DepArray [''partials/*.html''])]
       (globPhase demoEnv
          (demoOptions\<lparr>templatedURLs :=
             Some [(''/shell'', DepArray [''partials/*.html'']), (''index.html'', DepArray [''*.js''])]\<rparr>))
     = Inl (Error (''bad templated URL asset The glob pattern '' @ [CHR 0x27] @ ''partials/*.html'' @
                   [CHR 0x27] @ '' did not match anything.''))
   \<and> getFileManifestEntries demoEnv
       (demoOptions\<lparr>templatedURLs :=
          Some [(''/shell'', DepArray [''partials/*.html'']), (''index.html'', DepArray [''*.js''])]\<rparr>)
     = Inl (Error (''bad templated URL asset The glob pattern '' @ [CHR 0x27] @ ''partials/*.html'' @
                   [CHR 0x27] @ '' did not match anything.''))"
proof -
  let ?o = "demoOptions\<lparr>templatedURLs := Some [(''/v'', DepString ''v1''), (''index.html'', DepArray [''*.js''])]\<rparr>"
  let ?o2 = "demoOptions\<lparr>templatedURLs :=
          Some [(''/shell'', DepArray [''partials/*.html'']), (''index.html'', DepArray [''*.js''])]\<rparr>"
  let ?err = "Error (''bad templated URL asset The glob pattern '' @ [CHR 0x27] @ ''partials/*.html'' @
                   [CHR 0x27] @ '' did not match anything.'')"
  have r: "''index.html'' \<in> file_fd ` set (resolvedDetails demoEnv ?o (patternsOf ?o))"
    by (simp add: patternsOf_def demo_defs)
  have t: "templatedURLs ?o = Some ([(''/v'', DepString ''v1'')] @ (''index.html'', DepArray [''*.js'']) # [])"
    by (simp add: demo_defs)
  have p: "templatedLoop demoEnv ?o [(''/v'', DepString ''v1'')] (globPhase demoEnv ?o)
             = Inr ([], [(''index.html'', indexHtml), (''app.js'', appJs),
                         (''/v'', \<lparr>file_fd = ''/v'', hash_fd = ''v1'', size_fd = 2\<rparr>)])"
    by (simp add: globPhase_def patternsOf_def Map_has_def demo_defs)
  have e: "demoEnv\<lparr>transformStages := demoTransformStages\<rparr> = demoEnv"
    by (simp add: demoEnv_def)
  from templated_collision_fatal [OF t r] p
  have "getFileManifestEntries (demoEnv\<lparr>transformStages := demoTransformStages\<rparr>) ?o
          = Inl (AssertionError (errors demoEnv ''templated-url-matches-glob''))"
    by blast
  then have x: "getFileManifestEntries demoEnv ?o = Inl (AssertionError ''templated URL matches glob'')"
    by (simp add: e) (simp add: demoEnv_def demoErrors_def)
  have r2: "''index.html'' \<in> file_fd ` set (resolvedDetails demoEnv ?o2 (patternsOf ?o2))"
    by (simp add: patternsOf_def demo_defs)
  have t2: "templatedURLs ?o2 =
      Some ([(''/shell'', DepArray [''partials/*.html''])] @ (''index.html'', DepArray [''*.js'']) # [])"
    by (simp add: demo_defs)
  have p2: "templatedLoop demoEnv ?o2 [(''/shell'', DepArray [''partials/*.html''])] (globPhase demoEnv ?o2)
             = Inl ?err"
    by (simp add: globPhase_def patternsOf_def Map_has_def demo_defs)
  from templated_collision_fatal [OF t2 r2] p2
  have "getFileManifestEntries (demoEnv\<lparr>transformStages := demoTransformStages\<rparr>) ?o2 = Inl ?err"
    by blast
  then have y: "getFileManifestEntries demoEnv ?o2 = Inl ?err" by (simp only: e)
  from r x p2 y show ?thesis by (simp add: patternsOf_def demoOptions_def)
qed

subsection \<open>A templated URL without dependencies\<close>

lemma templatedReduce_nothing:
  "templatedReduce E opts url deps ps (ws, prev) = Inr (ws', details) \<Longrightarrow>
     \<forall>p\<in>set ps. \<forall>fds w. expandPattern E opts p = Inr (fds, w) \<longrightarrow> fds = [] \<Longrightarrow>
     details = prev"
proof (induction ps arbitrary: ws prev)
  case Nil
  then show ?case by simp
next
  case (Cons p ps)
  from Cons.prems(1) obtain fds w where p: "expandPattern E opts p = Inr (fds, w)"
    by (cases "expandPattern E opts p") auto
  with Cons.prems(2) have fds: "fds = []" by simp
  from Cons.prems(1) have "templatedReduce E opts url deps ps (pushWarning w ws, prev) = Inr (ws', details)"
    by (simp add: p fds)
  from Cons.IH [OF this] Cons.prems(2) show ?case by simp
qed

lemma templatedLoop_no_dependencies_head:
  assumes "\<forall>p\<in>set deps. \<forall>fds w. expandPattern E opts p = Inr (fds, w) \<longrightarrow> fds = []"
  shows "\<exists>e. templatedLoop E opts ((url, DepArray deps) # rest) (ws, m) = Inl e"
proof (cases "templatedReduce E opts url deps deps (ws, [])")
  case (Inl e)
  then show ?thesis by simp
next
  case (Inr r)
  obtain ws' details where r: "r = (ws', details)" by (cases r)
  from templatedReduce_nothing [OF Inr [unfolded r] assms] have "details = []" .
  with Inr r show ?thesis by simp
qed

lemma templatedLoop_no_dependencies:
  assumes "(url, DepArray deps) \<in> set ts"
    and "\<forall>p\<in>set deps. \<forall>fds w. expandPattern E opts p = Inr (fds, w) \<longrightarrow> fds = []"
  shows "\<exists>e. templatedLoop E opts ts st = Inl e"
proof -
  from assms(1) obtain pre post where ts: "ts = pre @ (url, DepArray deps) # post"
    by (auto simp: in_set_conv_decomp)
  show ?thesis
  proof (cases "templatedLoop E opts pre st")
    case (Inl e)
    then show ?thesis by (simp add: ts templatedLoop_append)
  next
    case (Inr st')
    obtain ws m where st': "st' = (ws, m)" by (cases st')
    from templatedLoop_no_dependencies_head [OF assms(2), of url post ws m] Inr st'
    show ?thesis by (simp add: ts templatedLoop_append)
  qed
qed

text \<open>
  Claim C4. For every templated URL whose dependency list is a list of glob patterns, if the
  patterns resolve to no file details at all, \<^verbatim>\<open>getFileManifestEntries\<close> aborts the whole
  build with a fatal error: it returns no manifest, whatever the transform stages are
  (they are not reached), and the entry is not emitted with a warning instead.
\<close>

theorem templated_no_dependencies_fatal:
  assumes "templatedURLs opts = Some ts"
    and "(url, DepArray deps) \<in> set ts"
    and "\<forall>p\<in>set deps. \<forall>fds w. expandPattern E opts p = Inr (fds, w) \<longrightarrow> fds = []"
  shows "\<exists>e. \<forall>f. getFileManifestEntries (E\<lparr>transformStages := f\<rparr>) opts = Inl e"
proof -
  from templatedLoop_no_dependencies [OF assms(2,3)]
  obtain e where "templatedLoop E opts ts (globPhase E opts) = Inl e" by blast
  from getFileManifestEntries_fatal [OF assms(1) this] show ?thesis by blast
qed

text \<open>The directory \<^verbatim>\<open>partials/\<close> is empty.\<close>

theorem templated_no_dependencies_fatal_witness:
  "expandPattern demoEnv (demoOptions\<lparr>templatedURLs := Some [(''/shell'', DepArray [''partials/*.html''])]\<rparr>)
       ''partials/*.html'' = Inr ([], Some ''no match: partials/*.html'')
   \<and> (\<exists>e. getFileManifestEntries demoEnv
             (demoOptions\<lparr>templatedURLs := Some [(''/shell'', DepArray [''partials/*.html''])]\<rparr>) = Inl e)"
proof -
  let ?o = "demoOptions\<lparr>templatedURLs := Some [(''/shell'', DepArray [''partials/*.html''])]\<rparr>"
  have x: "expandPattern demoEnv ?o ''partials/*.html'' = Inr ([], Some ''no match: partials/*.html'')"
    by (simp add: demo_defs)
  have e: "demoEnv\<lparr>transformStages := demoTransformStages\<rparr> = demoEnv"
    by (simp add: demoEnv_def)
  have "\<exists>e. \<forall>f. getFileManifestEntries (demoEnv\<lparr>transformStages := f\<rparr>) ?o = Inl e"
  proof (rule templated_no_dependencies_fatal [of ?o _ "''/shell''" "[''partials/*.html'']"])
    show "templatedURLs ?o = Some [(''/shell'', DepArray [''partials/*.html''])]" by simp
    show "(''/shell'', DepArray [''partials/*.html'']) \<in> set [(''/shell'', DepArray [''partials/*.html''])]"
      by simp
    show "\<forall>p\<in>set [''partials/*.html'']. \<forall>fds w. expandPattern demoEnv ?o p = Inr (fds, w) \<longrightarrow> fds = []"
      using x by simp
  qed
  then obtain e where "getFileManifestEntries (demoEnv\<lparr>transformStages := demoTransformStages\<rparr>) ?o = Inl e"
    by blast
  with e have "\<exists>e. getFileManifestEntries demoEnv ?o = Inl e" by auto
  with x show ?thesis by blast
qed

subsection \<open>The manifest disabled\<close>

lemma getManifestEntries_disabled:
  "disablePrecacheManifest_w cfg \<Longrightarrow>
     getManifestEntries W this names compilation cfg =
       (Inr \<lparr>size_r = 0, sortedEntries = None, manifestString = Some ''undefined''\<rparr>,
        this, compilation, cfg)"
  by (simp add: getManifestEntries_def)

text \<open>
  Claim C8 says that with \<^verbatim>\<open>disablePrecacheManifest\<close> set the pipeline always returns an
  empty manifest with the warnings. The patterns and the templated URLs are resolved all
  the same, and their fatal errors abort the run: below the manifest is disabled, the
  templated URL has no dependencies, and nothing is returned.
\<close>

theorem disabled_manifest_counterexample:
  "disablePrecacheManifest (demoOptions\<lparr>disablePrecacheManifest := True,
       templatedURLs := Some [(''/shell'', DepArray [''partials/*.html''])]\<rparr>)
   \<and> getFileManifestEntries demoEnv
       (demoOptions\<lparr>disablePrecacheManifest := True,
          templatedURLs := Some [(''/shell'', DepArray [''partials/*.html''])]\<rparr>)
     = Inl (Error (''bad templated URL asset The glob pattern '' @ [CHR 0x27] @ ''partials/*.html'' @
                   [CHR 0x27] @ '' did not match anything.''))"
  by (simp add: getFileManifestEntries_def templatedPhase_def globPhase_def patternsOf_def
        Map_has_def demo_defs)

text \<open>
  Claim C8, amended. For every configuration with \<^verbatim>\<open>disablePrecacheManifest\<close> set:
  \<^verbatim>\<open>getManifestEntries\<close> of the plugin returns at once, with size 0, \<^verbatim>\<open>sortedEntries\<close>
  undefined and the manifest string \<^verbatim>\<open>undefined\<close>, and leaves the compilation with its
  warnings as it was; \<^verbatim>\<open>getFileManifestEntries\<close> still resolves the patterns and the
  templated URLs, aborts with their fatal error if there is one, and otherwise returns size
  0 and undefined entries with exactly the warnings accumulated during the run.
\<close>

theorem disabled_manifest:
  "(disablePrecacheManifest_w cfg \<longrightarrow>
      getManifestEntries W this names compilation cfg =
        (Inr \<lparr>size_r = 0, sortedEntries = None, manifestString = Some ''undefined''\<rparr>,
         this, compilation, cfg))
   \<and> (disablePrecacheManifest opts \<longrightarrow>
        (\<forall>e. templatedPhase E opts = Inl e \<longrightarrow> getFileManifestEntries E opts = Inl e)
        \<and> (\<forall>ws m. templatedPhase E opts = Inr (ws, m) \<longrightarrow>
              getFileManifestEntries E opts =
                Inr \<lparr>count = 0, size_m = 0, manifestEntries = None, warnings = ws\<rparr>))"
  by (simp add: getManifestEntries_disabled getFileManifestEntries_def transformManifest_def)

text \<open>A disabled manifest in the plugin, and one over a pattern that matches nothing: its
  warning is returned.\<close>

theorem disabled_manifest_witness:
  "getManifestEntries demoWenv (InjectManifest_new (demoConfig\<lparr>disablePrecacheManifest_w := True\<rparr>)) {}
       (demoCompilation ''precache(self.__SW_MANIFEST)'') (demoConfig\<lparr>disablePrecacheManifest_w := True\<rparr>)
     = (Inr \<lparr>size_r = 0, sortedEntries = None, manifestString = Some ''undefined''\<rparr>,
        InjectManifest_new (demoConfig\<lparr>disablePrecacheManifest_w := True\<rparr>),
        demoCompilation ''precache(self.__SW_MANIFEST)'', demoConfig\<lparr>disablePrecacheManifest_w := True\<rparr>)
   \<and> templatedPhase demoEnv (demoOptions\<lparr>disablePrecacheManifest := True, globPatterns := Some [''*.css'']\<rparr>)
     = Inr ([''no match: *.css''], [])
   \<and> getFileManifestEntries demoEnv
        (demoOptions\<lparr>disablePrecacheManifest := True, globPatterns := Some [''*.css'']\<rparr>)
     = Inr \<lparr>count = 0, size_m = 0, manifestEntries = None, warnings = [''no match: *.css'']\<rparr>"
proof -
  let ?o = "demoOptions\<lparr>disablePrecacheManifest := True, globPatterns := Some [''*.css'']\<rparr>"
  let ?c = "demoConfig\<lparr>disablePrecacheManifest_w := True\<rparr>"
  have d: "disablePrecacheManifest ?o" by simp
  have w: "disablePrecacheManifest_w ?c" by simp
  have t: "templatedPhase demoEnv ?o = Inr ([''no match: *.css''], [])"
    by (simp add: templatedPhase_def globPhase_def patternsOf_def demo_defs)
  from disabled_manifest [of ?c demoWenv "InjectManifest_new ?c" "{}"
      "demoCompilation ''precache(self.__SW_MANIFEST)''" ?o demoEnv] d w t
  show ?thesis by simp
qed

section \<open>Properties of the plugin\<close>

subsection \<open>The serializer\<close>

lemma sameObject_sort_keys:
  assumes "sameObject a b"
  shows "sort (map fst a) = sort (map fst b)"
proof (rule sorted_distinct_set_unique)
  from assms have "set (map fst a) = set (map fst b)" by (simp add: sameObject_def)
  then show "set (sort (map fst a)) = set (sort (map fst b))" by simp
  from assms show "distinct (sort (map fst a))" "distinct (sort (map fst b))"
    by (simp_all add: sameObject_def)
qed simp_all

lemma sameObject_map_of:
  "sameObject a b \<Longrightarrow> map_of a = map_of b"
  by (simp add: sameObject_def map_of_inject_set)

lemma stringify_keys_map_of:
  "map_of a = map_of b \<Longrightarrow> stringify_keys a ks out = stringify_keys b ks out"
  by (induction ks arbitrary: out) (simp_all split: option.splits)

lemma sameObject_stringify_object:
  "sameObject a b \<Longrightarrow> stringify_object a = stringify_object b"
  by (simp add: stringify_object_def sameObject_sort_keys
        stringify_keys_map_of [OF sameObject_map_of])

lemma sameEntries_map_stringify_object:
  "list_all2 sameObject es1 es2 \<Longrightarrow> map stringify_object es1 = map stringify_object es2"
  by (induction rule: list_all2_induct) (simp_all add: sameObject_stringify_object)

text \<open>
  Claim C9. For any two runs over the same logical entry list (the same entries in the same
  order, each with the same keys and values, whatever the insertion order of the keys in
  memory) with the same configuration, the serializer produces the same manifest string,
  byte for byte.
\<close>

theorem serializer_deterministic:
  assumes "sameEntries es1 es2"
  shows "serializeManifest this compilation (Some es1) = serializeManifest this compilation (Some es2)"
  using sameEntries_map_stringify_object [of es1 es2] assms
  by (simp add: serializeManifest_def stringify_def sameEntries_def)

theorem serializer_deterministic_witness:
  "sameEntries [[(''url'', JString ''index.html''), (''revision'', JString ''h1'')]]
               [[(''revision'', JString ''h1''), (''url'', JString ''index.html'')]]
   \<and> serializeManifest (InjectManifest_new demoConfig) (demoCompilation [])
        (Some [[(''url'', JString ''index.html''), (''revision'', JString ''h1'')]])
     = serializeManifest (InjectManifest_new demoConfig) (demoCompilation [])
        (Some [[(''revision'', JString ''h1''), (''url'', JString ''index.html'')]])
   \<and> serializeManifest (InjectManifest_new demoConfig) (demoCompilation [])
        (Some [[(''revision'', JString ''h1''), (''url'', JString ''index.html'')]])
     = Inr (Some (''[{'' @ [CHR 0x27] @ ''revision'' @ [CHR 0x27] @ '':'' @ [CHR 0x27] @ ''h1'' @ [CHR 0x27] @
                  '','' @ [CHR 0x27] @ ''url'' @ [CHR 0x27] @ '':'' @ [CHR 0x27] @ ''index.html'' @ [CHR 0x27] @
                  ''}]''))"
proof -
  have s: "sameEntries [[(''url'', JString ''index.html''), (''revision'', JString ''h1'')]]
               [[(''revision'', JString ''h1''), (''url'', JString ''index.html'')]]"
    by (auto simp: sameEntries_def sameObject_def)
  have v: "serializeManifest (InjectManifest_new demoConfig) (demoCompilation [])
        (Some [[(''revision'', JString ''h1''), (''url'', JString ''index.html'')]])
     = Inr (Some (''[{'' @ [CHR 0x27] @ ''revision'' @ [CHR 0x27] @ '':'' @ [CHR 0x27] @ ''h1'' @ [CHR 0x27] @
                  '','' @ [CHR 0x27] @ ''url'' @ [CHR 0x27] @ '':'' @ [CHR 0x27] @ ''index.html'' @ [CHR 0x27] @
                  ''}]''))"
    by (simp add: serializeManifest_def stringify_def stringify_object_def JSON_stringify_string_def
          json_escape_char_def replaceDoubleQuotes_def InjectManifest_new_def demoConfig_def
          demoCompilation_def)
  from serializer_deterministic [OF s, of "InjectManifest_new demoConfig" "demoCompilation []"] s v
  show ?thesis by simp
qed

subsection \<open>The staleness warning\<close>

lemma getManifestEntries_warnings:
  assumes "\<not> disablePrecacheManifest_w cfg"
  shows "alreadyCalled (fst (snd (getManifestEntries W this names compilation cfg)))
     \<and> comp_warnings (fst (snd (snd (getManifestEntries W this names compilation cfg)))) =
         comp_warnings compilation @
         (if alreadyCalled this \<and> \<not> list_ex isStaleWarning (comp_warnings compilation)
          then [Error warningMessage] else []) @
         pushedWarnings W this names compilation cfg"
  using assms
  by (auto simp: getManifestEntries_def noteInvocation_def pushedWarnings_def Let_def
        split: sum.splits prod.splits)

text \<open>One invocation among the successive ones.\<close>

lemma invocations_Suc:
  "invocations W names (Suc n) (this, compilation) =
     invocations W names n
       ((fst (snd (getManifestEntries W this names compilation (config this))))
          \<lparr>config := (config (fst (snd (getManifestEntries W this names compilation (config this)))))
             \<lparr>exclude := exclude (snd (snd (snd (getManifestEntries W this names compilation (config this)))))\<rparr>\<rparr>,
        fst (snd (snd (getManifestEntries W this names compilation (config this)))))"
  by (simp split: prod.splits)

lemma getManifestEntries_config:
  "disablePrecacheManifest_w (config (fst (snd (getManifestEntries W this names compilation cfg))))
     = disablePrecacheManifest_w (config this)"
  by (auto simp: getManifestEntries_def noteInvocation_def Let_def split: sum.splits prod.splits)

lemma invocations_keep_stale:
  assumes "\<not> disablePrecacheManifest_w (config this)"
    and "list_ex isStaleWarning (comp_warnings compilation)"
  shows "list_ex isStaleWarning (comp_warnings (snd (invocations W names n (this, compilation))))"
  using assms
proof (induction n arbitrary: this compilation)
  case 0
  then show ?case by simp
next
  case (Suc n)
  let ?g = "getManifestEntries W this names compilation (config this)"
  from getManifestEntries_warnings [OF Suc.prems(1), of W this names compilation] Suc.prems(2)
  have "list_ex isStaleWarning (comp_warnings (fst (snd (snd ?g))))"
    by (simp add: list_ex_iff) blast
  moreover have "\<not> disablePrecacheManifest_w
      (config ((fst (snd ?g))\<lparr>config := (config (fst (snd ?g)))\<lparr>exclude := exclude (snd (snd (snd ?g)))\<rparr>\<rparr>))"
    using Suc.prems(1) by (simp add: getManifestEntries_config)
  ultimately show ?case
    unfolding invocations_Suc by (rule Suc.IH [rotated])
qed

lemma invocations_twice:
  assumes "\<not> disablePrecacheManifest_w (config this)"
  shows "list_ex isStaleWarning (comp_warnings (snd (invocations W names (Suc (Suc n)) (this, compilation))))"
proof -
  let ?g = "getManifestEntries W this names compilation (config this)"
  let ?this1 = "(fst (snd ?g))\<lparr>config := (config (fst (snd ?g)))\<lparr>exclude := exclude (snd (snd (snd ?g)))\<rparr>\<rparr>"
  let ?c1 = "fst (snd (snd ?g))"
  let ?h = "getManifestEntries W ?this1 names ?c1 (config ?this1)"
  let ?this2 = "(fst (snd ?h))\<lparr>config := (config (fst (snd ?h)))\<lparr>exclude := exclude (snd (snd (snd ?h)))\<rparr>\<rparr>"
  let ?c2 = "fst (snd (snd ?h))"
  have d1: "\<not> disablePrecacheManifest_w (config ?this1)"
    using assms by (simp add: getManifestEntries_config)
  have d1': "\<not> disablePrecacheManifest_w (config (fst (snd ?g))\<lparr>exclude := exclude (snd (snd (snd ?g)))\<rparr>)"
    using d1 by simp
  have a1: "alreadyCalled ?this1"
    using getManifestEntries_warnings [OF assms, of W this names compilation] by simp
  have d2: "\<not> disablePrecacheManifest_w (config ?this2)"
    using d1 by (simp add: getManifestEntries_config)
  have "isStaleWarning (Error warningMessage)" by (simp add: isStaleWarning_def)
  with getManifestEntries_warnings [OF d1', of W ?this1 names ?c1] a1
  have s2: "list_ex isStaleWarning (comp_warnings ?c2)"
    by (cases "list_ex isStaleWarning (comp_warnings ?c1)") (simp_all add: list_ex_iff, blast)
  from invocations_keep_stale [OF d2 s2, of W names n]
  show ?thesis by (simp only: invocations_Suc) 
qed

text \<open>
  Claim C7 says that every invocation after the first adds the staleness warning to the
  compilation's warnings. The warning is pushed only when the compilation does not hold an
  Error with that message yet: of three invocations on one compilation the first adds
  nothing, the second adds the warning, and the third adds nothing.
\<close>

theorem stale_warning_counterexample:
  "comp_warnings (snd (invocations demoWenv {} 1
       (InjectManifest_new demoConfig, demoCompilation ''precache(self.__SW_MANIFEST)''))) = []
   \<and> comp_warnings (snd (invocations demoWenv {} 2
       (InjectManifest_new demoConfig, demoCompilation ''precache(self.__SW_MANIFEST)'')))
     = [Error warningMessage]
   \<and> comp_warnings (snd (invocations demoWenv {} 3
       (InjectManifest_new demoConfig, demoCompilation ''precache(self.__SW_MANIFEST)'')))
     = [Error warningMessage]"
  by (simp add: numeral_3_eq_3 numeral_2_eq_2 getManifestEntries_def noteInvocation_def
        serializeManifest_def stringify_def isStaleWarning_def
        InjectManifest_new_def demoConfig_def demoWenv_def demoCompilation_def)

text \<open>
  Claim C7, amended. With \<^verbatim>\<open>disablePrecacheManifest\<close> set an invocation returns early:
  it adds no warning and does not count as a first invocation. Otherwise, for every
  invocation: the first one of an instance (its flag \<^verbatim>\<open>alreadyCalled\<close> not yet set) adds
  no staleness warning, and every later one adds the staleness warning to the
  compilation's warning list unless the list already holds an Error with that message, so
  that the list holds it afterwards; the only other warnings added are those that
  \<^verbatim>\<open>getManifestEntriesFromCompilation\<close> pushes; and the flag is set afterwards, which
  makes every following invocation a later one. So after two or more successive
  invocations on one compilation, its warning list holds a staleness warning; it can hold
  more than one, when it held several before or the collaborator pushes one.
\<close>

theorem stale_warning:
  "(disablePrecacheManifest_w cfg \<longrightarrow>
      fst (snd (getManifestEntries W this names compilation cfg)) = this
      \<and> fst (snd (snd (getManifestEntries W this names compilation cfg))) = compilation)
   \<and> (\<not> disablePrecacheManifest_w cfg \<longrightarrow>
        alreadyCalled (fst (snd (getManifestEntries W this names compilation cfg)))
        \<and> comp_warnings (fst (snd (snd (getManifestEntries W this names compilation cfg)))) =
            comp_warnings compilation @
            (if alreadyCalled this \<and> \<not> list_ex isStaleWarning (comp_warnings compilation)
             then [Error warningMessage] else []) @
            pushedWarnings W this names compilation cfg
        \<and> (alreadyCalled this \<longrightarrow>
              list_ex isStaleWarning
                (comp_warnings (fst (snd (snd (getManifestEntries W this names compilation cfg)))))))
   \<and> (\<not> disablePrecacheManifest_w (config this) \<longrightarrow>
        (\<forall>n. list_ex isStaleWarning
               (comp_warnings (snd (invocations W names (Suc (Suc n)) (this, compilation))))))"
proof -
  have a: "disablePrecacheManifest_w cfg \<longrightarrow>
      fst (snd (getManifestEntries W this names compilation cfg)) = this
      \<and> fst (snd (snd (getManifestEntries W this names compilation cfg))) = compilation"
    by (simp add: getManifestEntries_def)
  have b: "list_ex isStaleWarning
             (comp_warnings (fst (snd (snd (getManifestEntries W this names compilation cfg)))))"
    if "\<not> disablePrecacheManifest_w cfg" "alreadyCalled this"
  proof (cases "list_ex isStaleWarning (comp_warnings compilation)")
    case True
    with getManifestEntries_warnings [OF that(1), of W this names compilation]
    show ?thesis by (simp add: list_ex_iff) blast
  next
    case False
    have "isStaleWarning (Error warningMessage)" by (simp add: isStaleWarning_def)
    with False that(2) getManifestEntries_warnings [OF that(1), of W this names compilation]
    show ?thesis by (simp add: list_ex_iff)
  qed
  have c: "\<not> disablePrecacheManifest_w (config this) \<longrightarrow>
        (\<forall>n. list_ex isStaleWarning
               (comp_warnings (snd (invocations W names (Suc (Suc n)) (this, compilation)))))"
    using invocations_twice [of this W names _ compilation] by blast
  from a b c getManifestEntries_warnings [of cfg W this names compilation] show ?thesis by blast
qed

text \<open>A first and a second invocation on fresh compilations, and a disabled one.\<close>

theorem stale_warning_witness:
  "comp_warnings (fst (snd (snd (getManifestEntries demoWenv (InjectManifest_new demoConfig) {}
       (demoCompilation ''precache(self.__SW_MANIFEST)'') demoConfig)))) = []
   \<and> comp_warnings (fst (snd (snd (getManifestEntries demoWenv
       \<lparr>config = demoConfig, alreadyCalled = True\<rparr> {}
       (demoCompilation ''precache(self.__SW_MANIFEST)'') demoConfig)))) = [Error warningMessage]
   \<and> fst (snd (getManifestEntries demoWenv (InjectManifest_new demoConfig) {}
       (demoCompilation ''precache(self.__SW_MANIFEST)'') (demoConfig\<lparr>disablePrecacheManifest_w := True\<rparr>)))
     = InjectManifest_new demoConfig
   \<and> list_ex isStaleWarning (comp_warnings (snd (invocations demoWenv {} (Suc (Suc 0))
       (InjectManifest_new demoConfig, demoCompilation ''precache(self.__SW_MANIFEST)''))))"
proof -
  let ?c = "demoCompilation ''precache(self.__SW_MANIFEST)''"
  have p: "pushedWarnings demoWenv this {} ?c demoConfig = []" for this
    by (simp add: pushedWarnings_def demoWenv_def)
  have w: "comp_warnings ?c = []" by (simp add: demoCompilation_def)
  have d: "\<not> disablePrecacheManifest_w demoConfig" by (simp add: demoConfig_def)
  have d': "disablePrecacheManifest_w (demoConfig\<lparr>disablePrecacheManifest_w := True\<rparr>)" by simp
  from stale_warning [of demoConfig demoWenv "InjectManifest_new demoConfig" "{}" ?c]
       stale_warning [of demoConfig demoWenv "\<lparr>config = demoConfig, alreadyCalled = True\<rparr>" "{}" ?c]
       stale_warning [of "demoConfig\<lparr>disablePrecacheManifest_w := True\<rparr>" demoWenv
                        "InjectManifest_new demoConfig" "{}" ?c]
       d d'
  show ?thesis by (simp add: p w InjectManifest_new_def del: invocations.simps)
qed

subsection \<open>The placeholder\<close>

text \<open>\<^verbatim>\<open>getManifestEntries\<close> writes no asset and changes no field of the config other than
  \<^verbatim>\<open>exclude\<close>.\<close>

lemma getManifestEntries_keeps:
  assumes "getManifestEntries W this names compilation cfg = (r, this1, compilation1, cfg1)"
  shows "assets compilation1 = assets compilation"
    and "swDest cfg1 = swDest cfg" and "injectionPoint cfg1 = injectionPoint cfg"
  using assms
  by (auto simp: getManifestEntries_def noteInvocation_def Let_def
        split: if_splits sum.splits prod.splits)

lemma String_match_g_None: "String_match_g tok s = None \<longleftrightarrow> occurrences tok s = 0"
  by (simp add: String_match_g_def occurrences_def split: list.splits)

lemma String_match_g_Some: "String_match_g tok s = Some ms \<Longrightarrow> length ms = occurrences tok s"
  by (auto simp: String_match_g_def occurrences_def split: list.splits)

lemma injectInto_not_found:
  assumes "assets compilation (swDest cfg) = Some text"
    and "occurrences (injectionPoint cfg) text = 0"
  shows "injectInto W cfg ms names compilation =
           (Inl (Error (notFoundMessage (injectionPoint cfg))), names, compilation)"
  using assms by (simp add: injectInto_def String_match_g_None [symmetric])

lemma injectInto_multiple:
  assumes "assets compilation (swDest cfg) = Some text"
    and "1 < occurrences (injectionPoint cfg) text"
  shows "injectInto W cfg ms names compilation =
           (Inl (Error (multipleMessage (injectionPoint cfg))), names, compilation)"
proof (cases "String_match_g (injectionPoint cfg) text")
  case None
  with assms(2) show ?thesis by (simp add: String_match_g_None)
next
  case (Some matches)
  from String_match_g_Some [OF Some] assms(2) have "length matches \<noteq> 1" by simp
  with Some assms(1) show ?thesis by (simp add: injectInto_def)
qed

lemma addAssets_unfold:
  assumes "getManifestEntries W this names compilation (config this) = (Inr res, this1, compilation1, cfg1)"
  shows "addAssets W this names compilation =
     (case injectInto W cfg1 (manifestString res) names
             (compilation1\<lparr>fileDependencies :=
                insert (upath_resolve W (swSrc cfg1)) (fileDependencies compilation1)\<rparr>) of
        (r', names', compilation3) \<Rightarrow>
          (r', this1\<lparr>config := (config this1)\<lparr>exclude := exclude cfg1\<rparr>\<rparr>, names', compilation3))"
  by (simp add: addAssets_def assms Let_def split: prod.splits)

text \<open>
  Claim C1 says that the error for a token found more than once names the number of
  occurrences. The message is built from the token alone: for two occurrences and for three
  the error is the same, and the text \<^verbatim>\<open>3\<close> does not occur in it.
\<close>

theorem ambiguous_placeholder_counterexample:
  "occurrences ''self.__SW_MANIFEST''
       ''f(self.__SW_MANIFEST, self.__SW_MANIFEST, self.__SW_MANIFEST)'' = 3
   \<and> fst (addAssets demoWenv (InjectManifest_new demoConfig) {}
            (demoCompilation ''f(self.__SW_MANIFEST, self.__SW_MANIFEST, self.__SW_MANIFEST)''))
     = Inl (Error (''Multiple instances of self.__SW_MANIFEST were found in your SW source. '' @
                   ''Include it only once. For more info, see '' @
                   ''https://github.com/GoogleChrome/workbox/issues/2681''))
   \<and> fst (addAssets demoWenv (InjectManifest_new demoConfig) {}
            (demoCompilation ''f(self.__SW_MANIFEST, self.__SW_MANIFEST)''))
     = fst (addAssets demoWenv (InjectManifest_new demoConfig) {}
            (demoCompilation ''f(self.__SW_MANIFEST, self.__SW_MANIFEST, self.__SW_MANIFEST)''))
   \<and> occurrences (string_of_nat 3) (multipleMessage ''self.__SW_MANIFEST'') = 0"
  by (simp add: occurrences_def addAssets_def getManifestEntries_def noteInvocation_def
        serializeManifest_def stringify_def injectInto_def String_match_g_def multipleMessage_def
        digit_char_def InjectManifest_new_def demoConfig_def demoWenv_def demoCompilation_def)

text \<open>
  Claim C1, amended. For every artifact text and placeholder token, when
  \<^verbatim>\<open>getManifestEntries\<close> has returned and the asset \<^verbatim>\<open>swDest\<close> exists, injection fails
  with a fatal error naming the token when the token occurs zero times (\<^verbatim>\<open>Can't find\<close>
  the token) and fails with a fatal error naming the token when it occurs more than once
  (\<^verbatim>\<open>Multiple instances of\<close> the token); the second message does not give the number of
  occurrences.
\<close>

theorem placeholder_errors:
  assumes "fst (getManifestEntries W this names compilation (config this)) = Inr res"
    and "assets compilation (swDest (config this)) = Some text"
  shows "(occurrences (injectionPoint (config this)) text = 0 \<longrightarrow>
            fst (addAssets W this names compilation) =
              Inl (Error (''Can'' @ [CHR 0x27] @ ''t find '' @ injectionPoint (config this) @
                          '' in your SW source.'')))
       \<and> (1 < occurrences (injectionPoint (config this)) text \<longrightarrow>
            fst (addAssets W this names compilation) =
              Inl (Error (''Multiple instances of '' @ injectionPoint (config this) @ '' were '' @
                          ''found in your SW source. Include it only once. For more info, see '' @
                          ''https://github.com/GoogleChrome/workbox/issues/2681'')))"
proof -
  obtain this1 compilation1 cfg1 where
    g: "getManifestEntries W this names compilation (config this) = (Inr res, this1, compilation1, cfg1)"
    using assms(1) by (cases "getManifestEntries W this names compilation (config this)") auto
  let ?c2 = "compilation1\<lparr>fileDependencies :=
                insert (upath_resolve W (swSrc cfg1)) (fileDependencies compilation1)\<rparr>"
  from getManifestEntries_keeps [OF g] assms(2)
  have a: "assets ?c2 (swDest cfg1) = Some text" and i: "injectionPoint cfg1 = injectionPoint (config this)"
    by simp_all
  show ?thesis
    using injectInto_not_found [OF a, of W "manifestString res" names]
          injectInto_multiple [OF a, of W "manifestString res" names]
    by (simp add: addAssets_unfold [OF g] i notFoundMessage_def multipleMessage_def)
qed

text \<open>The service worker without the token, and with the token twice.\<close>

theorem placeholder_errors_witness:
  "occurrences ''self.__SW_MANIFEST'' ''precache([])'' = 0
   \<and> fst (addAssets demoWenv (InjectManifest_new demoConfig) {} (demoCompilation ''precache([])''))
     = Inl (Error (''Can'' @ [CHR 0x27] @ ''t find self.__SW_MANIFEST in your SW source.''))
   \<and> occurrences ''self.__SW_MANIFEST'' ''f(self.__SW_MANIFEST, self.__SW_MANIFEST)'' = 2
   \<and> fst (addAssets demoWenv (InjectManifest_new demoConfig) {}
            (demoCompilation ''f(self.__SW_MANIFEST, self.__SW_MANIFEST)''))
     = Inl (Error (''Multiple instances of self.__SW_MANIFEST were found in your SW source. '' @
                   ''Include it only once. For more info, see '' @
                   ''https://github.com/GoogleChrome/workbox/issues/2681''))"
proof -
  let ?inst = "InjectManifest_new demoConfig"
  have g: "fst (getManifestEntries demoWenv ?inst {} (demoCompilation src) (config ?inst)) =
             Inr \<lparr>size_r = 10,
                  sortedEntries = Some [[(''url'', JString ''index.html''), (''revision'', JString ''h1'')]],
                  manifestString =
                    Some (replaceDoubleQuotes (''['' @
                      stringify_object [(''url'', JString ''index.html''), (''revision'', JString ''h1'')] @
                      '']''))\<rparr>" for src
    by (simp add: getManifestEntries_def noteInvocation_def serializeManifest_def stringify_def
          InjectManifest_new_def demoConfig_def demoWenv_def demoCompilation_def)
  have c: "config ?inst = demoConfig" by (simp add: InjectManifest_new_def)
  have a: "assets (demoCompilation src) (swDest (config ?inst)) = Some src" for src
    by (simp add: InjectManifest_new_def demoConfig_def demoCompilation_def)
  have o0: "occurrences ''self.__SW_MANIFEST'' ''precache([])'' = 0"
    by (simp add: occurrences_def)
  have o2: "occurrences ''self.__SW_MANIFEST'' ''f(self.__SW_MANIFEST, self.__SW_MANIFEST)'' = 2"
    by (simp add: occurrences_def)
  have t: "injectionPoint (config ?inst) = ''self.__SW_MANIFEST''"
    by (simp add: InjectManifest_new_def demoConfig_def)
  from placeholder_errors [OF g a, of "''precache([])''"]
       placeholder_errors [OF g a, of "''f(self.__SW_MANIFEST, self.__SW_MANIFEST)''"]
       o0 o2
  show ?thesis by (simp add: t)
qed

subsection \<open>Nothing is written when the placeholder is not unique\<close>

lemma injectInto_not_unique:
  assumes "assets compilation (swDest cfg) = Some text"
    and "occurrences (injectionPoint cfg) text \<noteq> 1"
  shows "\<exists>e. injectInto W cfg ms names compilation = (Inl e, names, compilation)"
proof (cases "occurrences (injectionPoint cfg) text = 0")
  case True
  from injectInto_not_found [OF assms(1) True] show ?thesis by blast
next
  case False
  with assms(2) have "1 < occurrences (injectionPoint cfg) text" by simp
  from injectInto_multiple [OF assms(1) this] show ?thesis by blast
qed

text \<open>
  Claim C2. For every artifact in which the placeholder occurs zero times or more than
  once, \<^verbatim>\<open>addAssets\<close> throws before any asset is updated: the assets of the compilation,
  the artifact text and its source map among them, are left exactly as they were.
\<close>

theorem nothing_written_on_placeholder_error:
  assumes "assets compilation (swDest (config this)) = Some text"
    and "occurrences (injectionPoint (config this)) text \<noteq> 1"
  shows "(\<exists>e. fst (addAssets W this names compilation) = Inl e)
       \<and> assets (snd (snd (snd (addAssets W this names compilation)))) = assets compilation"
proof -
  obtain r this1 compilation1 cfg1 where
    g: "getManifestEntries W this names compilation (config this) = (r, this1, compilation1, cfg1)"
    by (cases "getManifestEntries W this names compilation (config this)") auto
  note k = getManifestEntries_keeps [OF g]
  show ?thesis
  proof (cases r)
    case (Inl e)
    with g k show ?thesis by (simp add: addAssets_def Let_def)
  next
    case (Inr res)
    let ?c2 = "compilation1\<lparr>fileDependencies :=
                  insert (upath_resolve W (swSrc cfg1)) (fileDependencies compilation1)\<rparr>"
    from k assms have a: "assets ?c2 (swDest cfg1) = Some text"
      and o: "occurrences (injectionPoint cfg1) text \<noteq> 1" by simp_all
    from injectInto_not_unique [OF a o, of W "manifestString res" names]
    obtain e where "injectInto W cfg1 (manifestString res) names ?c2 = (Inl e, names, ?c2)" by blast
    with g Inr k show ?thesis by (simp add: addAssets_unfold)
  qed
qed

text \<open>The token twice, in a service worker that has a source map.\<close>

theorem nothing_written_on_placeholder_error_witness:
  "occurrences ''self.__SW_MANIFEST'' ''f(self.__SW_MANIFEST, self.__SW_MANIFEST)'' \<noteq> 1
   \<and> (\<exists>e. fst (addAssets demoWenv (InjectManifest_new demoConfig) {}
              ((demoCompilation ''f(self.__SW_MANIFEST, self.__SW_MANIFEST)'')
                 \<lparr>assets := [''sw.js'' \<mapsto> ''f(self.__SW_MANIFEST, self.__SW_MANIFEST)'',
                             ''sw.js.map'' \<mapsto> ''{}'']\<rparr>)) = Inl e)
   \<and> assets (snd (snd (snd (addAssets demoWenv (InjectManifest_new demoConfig) {}
              ((demoCompilation ''f(self.__SW_MANIFEST, self.__SW_MANIFEST)'')
                 \<lparr>assets := [''sw.js'' \<mapsto> ''f(self.__SW_MANIFEST, self.__SW_MANIFEST)'',
                             ''sw.js.map'' \<mapsto> ''{}'']\<rparr>)))))
     = [''sw.js'' \<mapsto> ''f(self.__SW_MANIFEST, self.__SW_MANIFEST)'', ''sw.js.map'' \<mapsto> ''{}'']"
proof -
  let ?t = "''f(self.__SW_MANIFEST, self.__SW_MANIFEST)''"
  let ?c = "(demoCompilation ?t)\<lparr>assets := [''sw.js'' \<mapsto> ?t, ''sw.js.map'' \<mapsto> ''{}'']\<rparr>"
  have a: "assets ?c (swDest (config (InjectManifest_new demoConfig))) = Some ?t"
    by (simp add: InjectManifest_new_def demoConfig_def)
  have o: "occurrences (injectionPoint (config (InjectManifest_new demoConfig))) ?t \<noteq> 1"
    by (simp add: occurrences_def InjectManifest_new_def demoConfig_def)
  from nothing_written_on_placeholder_error [OF a o, of demoWenv "{}"] o
  show ?thesis by (simp add: InjectManifest_new_def demoConfig_def)
qed

end
